theory Spec2Isabelle
  imports Main
begin

section \<open>Python values that come out of a JSON parse\<close>

text \<open>
  The routes of \<^verbatim>\<open>routes/config.py\<close> and \<^verbatim>\<open>routes/themes.py\<close> work on the objects
  that \<^verbatim>\<open>json.loads\<close> returns: \<^verbatim>\<open>None\<close>, booleans, integers, strings, lists and
  dicts with string keys. A dict keeps its insertion order, so it is an association list;
  its keys are unique in Python. A string is the list of its UTF-8 bytes. Numbers are
  Python's unbounded integers; floating-point numbers are not part of this development.
\<close>

datatype json =
    JNull
  | JBool bool
  | JNum int
  | JStr string
  | JArr "json list"
  | JObj "(string \<times> json) list"

type_synonym pydict = "(string \<times> json) list"

text \<open>\<^verbatim>\<open>d.get(k, default)\<close>\<close>

definition dict_get :: "pydict \<Rightarrow> string \<Rightarrow> json \<Rightarrow> json" where
  "dict_get d k dflt = (case map_of d k of None \<Rightarrow> dflt | Some v \<Rightarrow> v)"

text \<open>\<^verbatim>\<open>d[k] = v\<close>: an existing key keeps its place, a new key goes to the end.\<close>

fun dict_set :: "pydict \<Rightarrow> string \<Rightarrow> json \<Rightarrow> pydict" where
  "dict_set [] k v = [(k, v)]"
| "dict_set ((k', v') # d) k v =
     (if k' = k then (k, v) # d else (k', v') # dict_set d k v)"

text \<open>\<^verbatim>\<open>{**a, **b}\<close>: the items of \<open>a\<close>, then each item of \<open>b\<close> stored in turn.\<close>

definition dict_merge :: "pydict \<Rightarrow> pydict \<Rightarrow> pydict" where
  "dict_merge a b = foldl (\<lambda>d (k, v). dict_set d k v) a b"

text \<open>Truth value of an object, as \<^verbatim>\<open>if not x\<close> tests it.\<close>

fun truthy :: "json \<Rightarrow> bool" where
  "truthy JNull = False"
| "truthy (JBool b) = b"
| "truthy (JNum n) = (n \<noteq> 0)"
| "truthy (JStr s) = (s \<noteq> [])"
| "truthy (JArr xs) = (xs \<noteq> [])"
| "truthy (JObj d) = (d \<noteq> [])"

section \<open>Files and the json module\<close>

text \<open>
  What a read of an existing file does: it raises \<^verbatim>\<open>OSError\<close> (a regular file that
  cannot be read), it raises \<^verbatim>\<open>UnicodeDecodeError\<close> (bytes that are not text in the
  interpreter's encoding, UTF-8), or it returns the text. An absent file is \<open>None\<close>.
  Writes are taken to succeed: a full disk or a read-only directory is outside the model.
\<close>

datatype file_data = Unreadable | Undecodable | Text string

text \<open>
  The standard library's \<^verbatim>\<open>json\<close> module is a parameter: \<open>dumps indent v\<close> is
  \<^verbatim>\<open>json.dumps(v, indent=indent)\<close>, and \<open>loads s\<close> is \<^verbatim>\<open>json.loads(s)\<close>, \<open>None\<close> when
  it raises \<^verbatim>\<open>JSONDecodeError\<close>.
\<close>

record pyjson =
  dumps :: "nat option \<Rightarrow> json \<Rightarrow> string"
  loads :: "string \<Rightarrow> json option"

datatype exn =
    OSError
  | UnicodeDecodeError
  | JSONDecodeError
  | AttributeError
  | TypeError
  | KeyError

text \<open>\<^verbatim>\<open>json.loads(path.read_text())\<close> and \<^verbatim>\<open>json.load(open(path))\<close> on an existing file.\<close>

definition json_load :: "pyjson \<Rightarrow> file_data \<Rightarrow> exn + json" where
  "json_load J fd =
     (case fd of
        Unreadable \<Rightarrow> Inl OSError
      | Undecodable \<Rightarrow> Inl UnicodeDecodeError
      | Text t \<Rightarrow> (case loads J t of None \<Rightarrow> Inl JSONDecodeError | Some v \<Rightarrow> Inr v))"

section \<open>The plugin configuration store (routes/config.py)\<close>

definition plugin_default :: "string \<Rightarrow> json" where
  "plugin_default i =
     JObj [(''id'', JStr i), (''enabled'', JBool True), (''settings'', JObj [])]"

text \<open>The literal that the module assigns to \<^verbatim>\<open>DEFAULT_CONFIG\<close> when it is loaded.\<close>

definition DEFAULT_CONFIG_literal :: pydict where
  "DEFAULT_CONFIG_literal =
     [(''plugins'', JArr (map plugin_default
        [''lavarrock.ui'', ''lavarrock.wm'', ''lavarrock.tooltips'', ''lavarrock.header'',
         ''lavarrock.search-modal'', ''lavarrock.app-modal'', ''lavarrock.search-bar'',
         ''lavarrock.app-launcher'', ''lavarrock.json-tool'', ''lavarrock.theme-engine'',
         ''lavarrock.theme-manager'', ''lavarrock.theme-import'', ''lavarrock.layout-engine'',
         ''lavarrock.settings-engine'', ''lavarrock.layout-manager'',
         ''lavarrock.settings-manager'']))]"

text \<open>
  The state the routes act on: the module-level object \<^verbatim>\<open>DEFAULT_CONFIG\<close> as it is at
  the moment (the process keeps it between requests), and the file \<^verbatim>\<open>CONFIG_FILE\<close>.
\<close>

record store =
  DEFAULT_CONFIG :: pydict
  CONFIG_FILE :: "file_data option"

definition initial_store :: "file_data option \<Rightarrow> store" where
  "initial_store f = \<lparr>DEFAULT_CONFIG = DEFAULT_CONFIG_literal, CONFIG_FILE = f\<rparr>"

text \<open>
  An object parsed from the file is fresh. \<^verbatim>\<open>DEFAULT_CONFIG.copy()\<close> is a shallow copy:
  a new top-level dict whose \<^verbatim>\<open>"plugins"\<close> value is the very list, with the very entry
  dicts, that \<^verbatim>\<open>DEFAULT_CONFIG\<close> holds. The origin of a configuration records which.
\<close>

datatype origin = Parsed | DefaultCopy

text \<open>
  \<^verbatim>\<open>_read_config\<close>. The \<^verbatim>\<open>except\<close> clause names \<^verbatim>\<open>JSONDecodeError\<close> and \<^verbatim>\<open>OSError\<close>;
  \<^verbatim>\<open>UnicodeDecodeError\<close> is a \<^verbatim>\<open>ValueError\<close> that is neither, and propagates.
\<close>

definition read_config :: "pyjson \<Rightarrow> store \<Rightarrow> exn + (json \<times> origin)" where
  "read_config J st =
     (case CONFIG_FILE st of
        None \<Rightarrow> Inr (JObj (DEFAULT_CONFIG st), DefaultCopy)
      | Some fd \<Rightarrow>
          (case json_load J fd of
             Inr v \<Rightarrow> Inr (v, Parsed)
           | Inl JSONDecodeError \<Rightarrow> Inr (JObj (DEFAULT_CONFIG st), DefaultCopy)
           | Inl OSError \<Rightarrow> Inr (JObj (DEFAULT_CONFIG st), DefaultCopy)
           | Inl e \<Rightarrow> Inl e))"

text \<open>\<^verbatim>\<open>_write_config\<close>\<close>

definition write_config :: "pyjson \<Rightarrow> json \<Rightarrow> store \<Rightarrow> store" where
  "write_config J config st = st\<lparr>CONFIG_FILE := Some (Text (dumps J (Some 2) config))\<rparr>"

text \<open>\<^verbatim>\<open>get_config\<close>: the object read, serialised for the client.\<close>

definition get_config :: "pyjson \<Rightarrow> store \<Rightarrow> exn + json" where
  "get_config J st = map_sum id fst (read_config J st)"

text \<open>\<^verbatim>\<open>put_config\<close>: the body is a JSON object (\<^verbatim>\<open>dict[str, Any]\<close>).\<close>

definition put_config :: "pyjson \<Rightarrow> pydict \<Rightarrow> store \<Rightarrow> json \<times> store" where
  "put_config J body st = (JObj body, write_config J (JObj body) st)"

text \<open>
  The loop of \<^verbatim>\<open>patch_plugin\<close> over the entries. It stops at the first entry whose
  \<^verbatim>\<open>"id"\<close> equals the path parameter, and raises on the way where Python does:
  \<^verbatim>\<open>entry["id"]\<close> is a \<^verbatim>\<open>KeyError\<close> on a dict without the key and a \<^verbatim>\<open>TypeError\<close> on
  anything that is not a dict; \<^verbatim>\<open>**x\<close> in a dict display is a \<^verbatim>\<open>TypeError\<close> unless \<open>x\<close>
  is a dict. The list is returned as the loop leaves it: the assignment to
  \<^verbatim>\<open>entry["enabled"]\<close> has happened when the merge of the settings raises.
\<close>

datatype loop_result =
    Raised exn "json list"
  | Patched json "json list"
  | NotFound

fun patch_entries :: "string \<Rightarrow> pydict \<Rightarrow> json list \<Rightarrow> loop_result" where
  "patch_entries plugin_id body [] = NotFound"
| "patch_entries plugin_id body (JObj entry # es) =
     (case map_of entry ''id'' of
        None \<Rightarrow> Raised KeyError (JObj entry # es)
      | Some i \<Rightarrow>
          if i = JStr plugin_id then
            (let entry1 = dict_set entry ''enabled''
                   (dict_get body ''enabled'' (dict_get entry ''enabled'' (JBool True)))
             in case dict_get entry1 ''settings'' (JObj []) of
                  JObj old \<Rightarrow>
                    (case dict_get body ''settings'' (JObj []) of
                       JObj new \<Rightarrow>
                         (let entry2 = dict_set entry1 ''settings'' (JObj (dict_merge old new))
                          in Patched (JObj entry2) (JObj entry2 # es))
                     | _ \<Rightarrow> Raised TypeError (JObj entry1 # es))
                | _ \<Rightarrow> Raised TypeError (JObj entry1 # es))
          else
            (case patch_entries plugin_id body es of
               Raised x es' \<Rightarrow> Raised x (JObj entry # es')
             | Patched r es' \<Rightarrow> Patched r (JObj entry # es')
             | NotFound \<Rightarrow> NotFound))"
| "patch_entries plugin_id body (e # es) = Raised TypeError (e # es)"

text \<open>
  What the mutation of the list does to \<^verbatim>\<open>DEFAULT_CONFIG\<close>: when the configuration is the
  shallow copy, the list that was mutated is the one \<^verbatim>\<open>DEFAULT_CONFIG["plugins"]\<close> holds.
\<close>

definition mutate_plugins :: "origin \<Rightarrow> json list \<Rightarrow> store \<Rightarrow> store" where
  "mutate_plugins org es st =
     (if org = DefaultCopy \<and> map_of (DEFAULT_CONFIG st) ''plugins'' \<noteq> None
      then st\<lparr>DEFAULT_CONFIG := dict_set (DEFAULT_CONFIG st) ''plugins'' (JArr es)\<rparr>
      else st)"

text \<open>
  \<^verbatim>\<open>patch_plugin\<close>. The value of \<^verbatim>\<open>config.get("plugins", [])\<close> is iterated: a list gives
  its entries; a non-empty dict or string gives strings, and \<^verbatim>\<open>entry["id"]\<close> on the first
  is a \<^verbatim>\<open>TypeError\<close>; an empty dict or string gives nothing, and \<^verbatim>\<open>.append\<close> on it is an
  \<^verbatim>\<open>AttributeError\<close>; any other object is not iterable. \<^verbatim>\<open>config.get\<close> on an object
  that is not a dict is an \<^verbatim>\<open>AttributeError\<close>.
\<close>

definition patch_plugin :: "pyjson \<Rightarrow> string \<Rightarrow> pydict \<Rightarrow> store \<Rightarrow> (exn + json) \<times> store" where
  "patch_plugin J plugin_id body st =
     (case read_config J st of
        Inl x \<Rightarrow> (Inl x, st)
      | Inr (config, org) \<Rightarrow>
          (case config of
             JObj cfg \<Rightarrow>
               (case dict_get cfg ''plugins'' (JArr []) of
                  JArr es \<Rightarrow>
                    (case patch_entries plugin_id body es of
                       Raised x es' \<Rightarrow> (Inl x, mutate_plugins org es' st)
                     | Patched entry es' \<Rightarrow>
                         (Inr entry,
                          write_config J (JObj (dict_set cfg ''plugins'' (JArr es')))
                            (mutate_plugins org es' st))
                     | NotFound \<Rightarrow>
                         (let new_entry = JObj
                                [(''id'', JStr plugin_id),
                                 (''enabled'', dict_get body ''enabled'' (JBool True)),
                                 (''settings'', dict_get body ''settings'' (JObj []))];
                              es' = es @ [new_entry]
                          in (Inr new_entry,
                              write_config J (JObj (dict_set cfg ''plugins'' (JArr es')))
                                (mutate_plugins org es' st))))
                | JObj [] \<Rightarrow> (Inl AttributeError, st)
                | JStr [] \<Rightarrow> (Inl AttributeError, st)
                | _ \<Rightarrow> (Inl TypeError, st))
           | _ \<Rightarrow> (Inl AttributeError, st)))"

section \<open>Formatting an object into a file name\<close>

text \<open>
  \<^verbatim>\<open>f"{theme_name}.json"\<close> formats with \<^verbatim>\<open>str\<close>: a string is itself, any other object is
  its \<^verbatim>\<open>repr\<close>. The \<^verbatim>\<open>repr\<close> of a string inside a list or dict is exact here for text
  whose characters beyond ASCII are printable ones (Python consults the Unicode
  database for the others).
\<close>

definition digit_char :: "nat \<Rightarrow> char" where
  "digit_char d = ''0123456789abcdef'' ! d"

fun show_nat :: "nat \<Rightarrow> string" where
  "show_nat n = (if n < 10 then [digit_char n] else show_nat (n div 10) @ [digit_char (n mod 10)])"

declare show_nat.simps [simp del]

definition show_int :: "int \<Rightarrow> string" where
  "show_int i = (if i < 0 then CHR ''-'' # show_nat (nat (- i)) else show_nat (nat i))"

definition repr_char :: "char \<Rightarrow> char \<Rightarrow> string" where
  "repr_char q c =
     (if c = q \<or> c = CHR 0x5C then [CHR 0x5C, c]
      else if c = CHR 0x09 then [CHR 0x5C, CHR ''t'']
      else if c = CHR 0x0A then [CHR 0x5C, CHR ''n'']
      else if c = CHR 0x0D then [CHR 0x5C, CHR ''r'']
      else if (of_char c :: nat) < 32 \<or> c = CHR 0x7F
        then [CHR 0x5C, CHR ''x'', digit_char (of_char c div 16), digit_char (of_char c mod 16)]
      else [c])"

definition repr_str :: "string \<Rightarrow> string" where
  "repr_str s =
     (let q = (if CHR 0x27 \<in> set s \<and> CHR 0x22 \<notin> set s then CHR 0x22 else CHR 0x27)
      in q # concat (map (repr_char q) s) @ [q])"

fun join :: "string \<Rightarrow> string list \<Rightarrow> string" where
  "join sep [] = []"
| "join sep [x] = x"
| "join sep (x # y # ys) = x @ sep @ join sep (y # ys)"

fun py_repr :: "json \<Rightarrow> string" where
  "py_repr JNull = ''None''"
| "py_repr (JBool b) = (if b then ''True'' else ''False'')"
| "py_repr (JNum n) = show_int n"
| "py_repr (JStr s) = repr_str s"
| "py_repr (JArr xs) = ''['' @ join '', '' (map py_repr xs) @ '']''"
| "py_repr (JObj d) =
     ''{'' @ join '', '' (map (\<lambda>kv. repr_str (fst kv) @ '': '' @ py_repr (snd kv)) d) @ ''}''"

definition py_str :: "json \<Rightarrow> string" where
  "py_str v = (case v of JStr s \<Rightarrow> s | _ \<Rightarrow> py_repr v)"

section \<open>The theme store (routes/themes.py)\<close>

text \<open>
  \<^verbatim>\<open>THEMES_DIR\<close> is a directory of regular files, on a file system that tells names by
  their bytes: a map from the place of a file to what a read of it does. The code reaches
  a file through the path \<^verbatim>\<open>THEMES_DIR / f"{name}.json"\<close>, and what the operating system
  makes of that path depends on the name. It leads to a place in the directory, or the
  system refuses it: with an error that \<^verbatim>\<open>Path.exists\<close> takes for an absent file
  (\<^verbatim>\<open>ENOENT\<close>, \<^verbatim>\<open>ENOTDIR\<close>, and the \<^verbatim>\<open>ValueError\<close> of a NUL byte), or with another
  \<^verbatim>\<open>OSError\<close> (\<^verbatim>\<open>ENAMETOOLONG\<close>).
\<close>

type_synonym directory = "string \<rightharpoonup> file_data"

datatype refusal = NotThere | OtherError

datatype resolution = At string | Refused refusal

text \<open>
  What the process runs on: the longest file name in bytes (255 on Linux), what a path
  with a \<^verbatim>\<open>/\<close> in it resolves to (that depends on the directories around
  \<^verbatim>\<open>THEMES_DIR\<close>), and whether \<^verbatim>\<open>Path.exists\<close> raises the errors it does not take for an
  absent file (it does before Python 3.13).
\<close>

record posix =
  NAME_MAX :: nat
  nested :: "string \<Rightarrow> resolution"
  exists_reraises :: bool

definition resolve :: "posix \<Rightarrow> string \<Rightarrow> resolution" where
  "resolve E p =
     (if CHR 0x00 \<in> set p then Refused NotThere
      else if CHR ''/'' \<in> set p then nested E p
      else if NAME_MAX E < length p then Refused OtherError
      else At p)"

text \<open>\<^verbatim>\<open>path.exists()\<close>; \<open>None\<close> when it raises.\<close>

definition path_exists :: "posix \<Rightarrow> directory \<Rightarrow> string \<Rightarrow> bool option" where
  "path_exists E fs p =
     (case resolve E p of
        At loc \<Rightarrow> Some (fs loc \<noteq> None)
      | Refused NotThere \<Rightarrow> Some False
      | Refused OtherError \<Rightarrow> if exists_reraises E then None else Some False)"

text \<open>\<^verbatim>\<open>open(path, "w")\<close>: the place that is written, \<open>None\<close> when it raises.\<close>

definition open_write :: "posix \<Rightarrow> string \<Rightarrow> string option" where
  "open_write E p = (case resolve E p of At loc \<Rightarrow> Some loc | Refused r \<Rightarrow> None)"

text \<open>\<^verbatim>\<open>json.load(open(path, "r"))\<close>; \<open>None\<close> when the open, the read or the parse raises.\<close>

definition load_file :: "posix \<Rightarrow> pyjson \<Rightarrow> directory \<Rightarrow> string \<Rightarrow> json option" where
  "load_file E J fs p =
     (case resolve E p of
        At loc \<Rightarrow>
          (case fs loc of
             None \<Rightarrow> None
           | Some fd \<Rightarrow> (case json_load J fd of Inl e \<Rightarrow> None | Inr v \<Rightarrow> Some v))
      | Refused r \<Rightarrow> None)"

text \<open>\<^verbatim>\<open>path.unlink()\<close>: the directory without the file, \<open>None\<close> when it raises.\<close>

definition unlink :: "posix \<Rightarrow> string \<Rightarrow> directory \<Rightarrow> directory option" where
  "unlink E p fs =
     (case resolve E p of
        At loc \<Rightarrow> (case fs loc of None \<Rightarrow> None | Some fd \<Rightarrow> Some (fs(loc := None)))
      | Refused r \<Rightarrow> None)"

definition ACTIVE_THEME_FILE :: string where
  "ACTIVE_THEME_FILE = ''active_theme.json''"

definition theme_path :: "string \<Rightarrow> string" where
  "theme_path n = n @ ''.json''"

definition plain_name :: "string \<Rightarrow> bool" where
  "plain_name n = (CHR ''/'' \<notin> set n \<and> CHR 0x00 \<notin> set n)"

record ThemeUpload =
  name :: string
  theme :: pydict

record ThemeResponse =
  name :: string
  theme :: pydict
  active :: bool

datatype http_error = HTTPException nat

text \<open>
  \<^verbatim>\<open>upload_theme\<close>: \<^verbatim>\<open>json.dump(theme, f, indent=2)\<close> into the theme file, then
  \<^verbatim>\<open>json.dump({"name": name}, f)\<close> into the active-theme file. An \<^verbatim>\<open>open\<close> that raises
  becomes a 500; the one of the active-theme file comes after the theme file is written.
\<close>

definition upload_theme ::
  "posix \<Rightarrow> pyjson \<Rightarrow> ThemeUpload \<Rightarrow> directory \<Rightarrow> (http_error + ThemeResponse) \<times> directory" where
  "upload_theme E J theme_data fs =
     (case open_write E (theme_path (ThemeUpload.name theme_data)) of
        None \<Rightarrow> (Inl (HTTPException 500), fs)
      | Some theme_file \<Rightarrow>
          (let fs1 = fs(theme_file \<mapsto>
                       Text (dumps J (Some 2) (JObj (ThemeUpload.theme theme_data))))
           in case open_write E ACTIVE_THEME_FILE of
                None \<Rightarrow> (Inl (HTTPException 500), fs1)
              | Some active_file \<Rightarrow>
                  (Inr \<lparr>name = ThemeUpload.name theme_data, theme = ThemeUpload.theme theme_data,
                        active = True\<rparr>,
                   fs1(active_file \<mapsto>
                         Text (dumps J None (JObj [(''name'', JStr (ThemeUpload.name theme_data))]))))))"

text \<open>
  \<^verbatim>\<open>get_active_theme\<close>. Every exception inside the \<^verbatim>\<open>try\<close> becomes a 500: an \<^verbatim>\<open>exists\<close>
  that raises, a failed read or parse, \<^verbatim>\<open>.get\<close> on an object that is not a dict, and the
  validation of \<^verbatim>\<open>ThemeResponse\<close>, whose \<^verbatim>\<open>name\<close> must be a string and whose \<^verbatim>\<open>theme\<close> a
  dict.
\<close>

definition get_active_theme ::
  "posix \<Rightarrow> pyjson \<Rightarrow> directory \<Rightarrow> http_error + ThemeResponse option" where
  "get_active_theme E J fs =
     (case path_exists E fs ACTIVE_THEME_FILE of
        None \<Rightarrow> Inl (HTTPException 500)
      | Some False \<Rightarrow> Inr None
      | Some True \<Rightarrow>
          (case load_file E J fs ACTIVE_THEME_FILE of
             None \<Rightarrow> Inl (HTTPException 500)
           | Some (JObj active_data) \<Rightarrow>
               (let theme_name = dict_get active_data ''name'' JNull in
                if \<not> truthy theme_name then Inr None
                else
                  (case path_exists E fs (theme_path (py_str theme_name)) of
                     None \<Rightarrow> Inl (HTTPException 500)
                   | Some False \<Rightarrow> Inr None
                   | Some True \<Rightarrow>
                       (case load_file E J fs (theme_path (py_str theme_name)) of
                          None \<Rightarrow> Inl (HTTPException 500)
                        | Some th \<Rightarrow>
                            (case (theme_name, th) of
                               (JStr n, JObj t) \<Rightarrow>
                                 Inr (Some \<lparr>name = n, theme = t, active = True\<rparr>)
                             | _ \<Rightarrow> Inl (HTTPException 500)))))
           | Some _ \<Rightarrow> Inl (HTTPException 500)))"

text \<open>
  \<^verbatim>\<open>delete_theme\<close>. The path parameter of the route is one segment of the URL: it has no
  \<^verbatim>\<open>/\<close>. The 404 is raised before anything is touched, and so is the 500 of an \<^verbatim>\<open>exists\<close>
  that raises; a failure while the active-theme file is read comes after the theme file
  has been unlinked.
\<close>

definition delete_theme ::
  "posix \<Rightarrow> pyjson \<Rightarrow> string \<Rightarrow> directory \<Rightarrow> (http_error + json) \<times> directory" where
  "delete_theme E J theme_name fs =
     (case path_exists E fs (theme_path theme_name) of
        None \<Rightarrow> (Inl (HTTPException 500), fs)
      | Some False \<Rightarrow> (Inl (HTTPException 404), fs)
      | Some True \<Rightarrow>
          (case unlink E (theme_path theme_name) fs of
             None \<Rightarrow> (Inl (HTTPException 500), fs)
           | Some fs1 \<Rightarrow>
               (case path_exists E fs1 ACTIVE_THEME_FILE of
                  None \<Rightarrow> (Inl (HTTPException 500), fs1)
                | Some False \<Rightarrow>
                    (Inr (JObj [(''message'', JStr ''Theme deleted successfully'')]), fs1)
                | Some True \<Rightarrow>
                    (case load_file E J fs1 ACTIVE_THEME_FILE of
                       None \<Rightarrow> (Inl (HTTPException 500), fs1)
                     | Some (JObj active_data) \<Rightarrow>
                         (if dict_get active_data ''name'' JNull = JStr theme_name
                          then (case unlink E ACTIVE_THEME_FILE fs1 of
                                  None \<Rightarrow> (Inl (HTTPException 500), fs1)
                                | Some fs2 \<Rightarrow>
                                    (Inr (JObj [(''message'', JStr ''Theme deleted successfully'')]),
                                     fs2))
                          else (Inr (JObj [(''message'', JStr ''Theme deleted successfully'')]),
                                fs1))
                     | Some _ \<Rightarrow> (Inl (HTTPException 500), fs1)))))"

section \<open>The model factory (models/factory.py, config.py)\<close>

text \<open>
  The two configuration classes of \<^verbatim>\<open>config.py\<close>. The \<^verbatim>\<open>provider\<close> field is a constant
  of each class and is the class itself here. The factory hands the temperature on and
  never computes with it, so its type is a parameter.
\<close>

record 'f OllamaConfig =
  host :: string
  model_id :: string
  temperature :: 'f
  keep_alive :: string

record 'f BedrockConfig =
  model_id :: string
  region :: string
  profile :: "string option"
  temperature :: 'f

text \<open>The argument of \<^verbatim>\<open>create_model\<close>: \<^verbatim>\<open>Union[OllamaConfig, BedrockConfig, dict]\<close>.\<close>

datatype 'f config_arg =
    PyDict pydict
  | Ollama "'f OllamaConfig"
  | Bedrock "'f BedrockConfig"

text \<open>
  The collaborators. A client is \<^verbatim>\<open>boto3.Session(profile_name=p).client(service)\<close>; a model
  handle is the constructor call that made it, with its keyword arguments (an argument
  that is not passed is \<open>None\<close>).
\<close>

datatype boto_client = SessionClient string string

record 'f BedrockModel_kwargs =
  model_id :: string
  temperature :: 'f
  streaming :: bool
  region_name :: "string option"
  client :: "boto_client option"

datatype 'f model =
    OllamaModel "'f OllamaConfig"
  | BedrockModel "'f BedrockModel_kwargs"

text \<open>The calls into the SDKs, in the order they are made; the last one may be a call that raised.\<close>

datatype 'f sdk_call =
    Call_Session string
  | Call_client string string
  | Call_OllamaModel "'f OllamaConfig"
  | Call_BedrockModel "'f BedrockModel_kwargs"

text \<open>
  What the process provides: whether the imports inside the two private constructors
  succeed; the constructors that pydantic generates for the two classes (\<open>None\<close> is a
  \<^verbatim>\<open>ValidationError\<close>; they read the defaults and the environment variables); and, for
  each call into an SDK, the exception it raises, \<open>None\<close> when it returns:
  \<^verbatim>\<open>boto3.Session(profile_name=p)\<close> raises \<^verbatim>\<open>ProfileNotFound\<close> for a profile that is not
  configured, \<^verbatim>\<open>session.client(service)\<close> and the two model constructors may raise too.
\<close>

record 'f runtime =
  ollama_importable :: bool
  bedrock_importable :: bool
  new_OllamaConfig :: "pydict \<Rightarrow> 'f OllamaConfig option"
  new_BedrockConfig :: "pydict \<Rightarrow> 'f BedrockConfig option"
  Session_raises :: "string \<Rightarrow> string option"
  client_raises :: "string \<Rightarrow> string \<Rightarrow> string option"
  OllamaModel_raises :: "'f OllamaConfig \<Rightarrow> string option"
  BedrockModel_raises :: "'f BedrockModel_kwargs \<Rightarrow> string option"

datatype factory_error =
    ValueError string
  | ImportError string
  | ValidationError
  | SDKError string

text \<open>\<^verbatim>\<open>_create_ollama_model\<close>\<close>

definition create_ollama_model ::
  "'f runtime \<Rightarrow> 'f OllamaConfig \<Rightarrow> (factory_error + 'f model) \<times> 'f sdk_call list" where
  "create_ollama_model R config =
     (if \<not> ollama_importable R
      then (Inl (ImportError ''Ollama support requires 'strands-agents[ollama]' to be installed''), [])
      else
        (case OllamaModel_raises R config of
           Some e \<Rightarrow> (Inl (SDKError e), [Call_OllamaModel config])
         | None \<Rightarrow> (Inr (OllamaModel config), [Call_OllamaModel config])))"

text \<open>
  The keyword arguments of \<^verbatim>\<open>BedrockModel(...)\<close>: \<^verbatim>\<open>streaming=True\<close>, a region when
  \<^verbatim>\<open>config.region\<close> is not empty, and the client when one was made.
\<close>

definition bedrock_kwargs ::
  "'f BedrockConfig \<Rightarrow> boto_client option \<Rightarrow> 'f BedrockModel_kwargs" where
  "bedrock_kwargs config cl =
     \<lparr>model_id = BedrockConfig.model_id config,
      temperature = BedrockConfig.temperature config,
      streaming = True,
      region_name = (if region config \<noteq> [] then Some (region config) else None),
      client = cl\<rparr>"

text \<open>The call \<^verbatim>\<open>BedrockModel(...)\<close> that ends the constructor, after the calls made so far.\<close>

definition construct_BedrockModel ::
  "'f runtime \<Rightarrow> 'f BedrockModel_kwargs \<Rightarrow> 'f sdk_call list
     \<Rightarrow> (factory_error + 'f model) \<times> 'f sdk_call list" where
  "construct_BedrockModel R kwargs calls =
     (case BedrockModel_raises R kwargs of
        Some e \<Rightarrow> (Inl (SDKError e), calls @ [Call_BedrockModel kwargs])
      | None \<Rightarrow> (Inr (BedrockModel kwargs), calls @ [Call_BedrockModel kwargs]))"

text \<open>
  \<^verbatim>\<open>_create_bedrock_model\<close>. \<^verbatim>\<open>if config.region\<close> and \<^verbatim>\<open>if config.profile\<close> test the
  truth value: the empty string, like \<^verbatim>\<open>None\<close>, does not pass. An exception of the
  session or of the client leaves the function before the model is constructed.
\<close>

definition create_bedrock_model ::
  "'f runtime \<Rightarrow> 'f BedrockConfig \<Rightarrow> (factory_error + 'f model) \<times> 'f sdk_call list" where
  "create_bedrock_model R config =
     (if \<not> bedrock_importable R
      then (Inl (ImportError
        ''Bedrock support requires 'strands-agents[bedrock]' and 'boto3' to be installed''), [])
      else
        (case (case profile config of
                 None \<Rightarrow> None
               | Some p \<Rightarrow> if p \<noteq> [] then Some p else None) of
           None \<Rightarrow> construct_BedrockModel R (bedrock_kwargs config None) []
         | Some p \<Rightarrow>
             (case Session_raises R p of
                Some e \<Rightarrow> (Inl (SDKError e), [Call_Session p])
              | None \<Rightarrow>
                  (case client_raises R p ''bedrock-runtime'' of
                     Some e \<Rightarrow>
                       (Inl (SDKError e), [Call_Session p, Call_client p ''bedrock-runtime''])
                   | None \<Rightarrow>
                       construct_BedrockModel R
                         (bedrock_kwargs config (Some (SessionClient p ''bedrock-runtime'')))
                         [Call_Session p, Call_client p ''bedrock-runtime'']))))"

text \<open>
  \<^verbatim>\<open>create_model\<close>. The last \<^verbatim>\<open>else\<close> of the source, for an object of neither class, has
  no input in \<open>config_arg\<close>.
\<close>

definition create_model ::
  "'f runtime \<Rightarrow> 'f config_arg \<Rightarrow> (factory_error + 'f model) \<times> 'f sdk_call list" where
  "create_model R config =
     (case config of
        PyDict d \<Rightarrow>
          (let provider = dict_get d ''provider'' JNull in
           if provider = JStr ''ollama'' then
             (case new_OllamaConfig R d of
                None \<Rightarrow> (Inl ValidationError, [])
              | Some c \<Rightarrow> create_ollama_model R c)
           else if provider = JStr ''bedrock'' then
             (case new_BedrockConfig R d of
                None \<Rightarrow> (Inl ValidationError, [])
              | Some c \<Rightarrow> create_bedrock_model R c)
           else (Inl (ValueError (''Unsupported provider: '' @ py_str provider)), []))
      | Ollama c \<Rightarrow> create_ollama_model R c
      | Bedrock c \<Rightarrow> create_bedrock_model R c)"

section \<open>An instance of the json module\<close>

text \<open>
  A printer and a parser to run the operations on examples. On documents whose strings
  are ASCII the printer gives the text CPython's \<^verbatim>\<open>json.dumps\<close> gives (\<^verbatim>\<open>ensure_ascii\<close> and
  the separators of each indent mode); the parser reads the integer fragment of JSON
  with the escapes the printer writes, and bounds its recursion by the length of the text.
\<close>

definition json_escape :: "char \<Rightarrow> string" where
  "json_escape c =
     (if c = CHR 0x22 then [CHR 0x5C, CHR 0x22]
      else if c = CHR 0x5C then [CHR 0x5C, CHR 0x5C]
      else if c = CHR 0x0A then [CHR 0x5C, CHR ''n'']
      else if c = CHR 0x0D then [CHR 0x5C, CHR ''r'']
      else if c = CHR 0x09 then [CHR 0x5C, CHR ''t'']
      else if c = CHR 0x08 then [CHR 0x5C, CHR ''b'']
      else if c = CHR 0x0C then [CHR 0x5C, CHR ''f'']
      else if (of_char c :: nat) < 32 \<or> c = CHR 0x7F
        then [CHR 0x5C, CHR ''u'', CHR ''0'', CHR ''0'',
              digit_char (of_char c div 16), digit_char (of_char c mod 16)]
      else [c])"

definition json_quote :: "string \<Rightarrow> string" where
  "json_quote s = CHR 0x22 # concat (map json_escape s) @ [CHR 0x22]"

definition newline_indent :: "nat option \<Rightarrow> nat \<Rightarrow> string" where
  "newline_indent indent level =
     (case indent of None \<Rightarrow> [] | Some k \<Rightarrow> CHR 0x0A # replicate (k * level) CHR '' '')"

definition item_separator :: "nat option \<Rightarrow> nat \<Rightarrow> string" where
  "item_separator indent level =
     (case indent of None \<Rightarrow> '', '' | Some k \<Rightarrow> CHR '','' # newline_indent indent level)"

fun encode :: "nat option \<Rightarrow> nat \<Rightarrow> json \<Rightarrow> string" where
  "encode indent level JNull = ''null''"
| "encode indent level (JBool b) = (if b then ''true'' else ''false'')"
| "encode indent level (JNum n) = show_int n"
| "encode indent level (JStr s) = json_quote s"
| "encode indent level (JArr xs) =
     (if xs = [] then ''[]''
      else ''['' @ newline_indent indent (Suc level)
           @ join (item_separator indent (Suc level)) (map (encode indent (Suc level)) xs)
           @ newline_indent indent level @ '']'')"
| "encode indent level (JObj d) =
     (if d = [] then ''{}''
      else ''{'' @ newline_indent indent (Suc level)
           @ join (item_separator indent (Suc level))
               (map (\<lambda>kv. json_quote (fst kv) @ '': '' @ encode indent (Suc level) (snd kv)) d)
           @ newline_indent indent level @ ''}'')"

definition is_ws :: "char \<Rightarrow> bool" where
  "is_ws c = (c = CHR '' '' \<or> c = CHR 0x09 \<or> c = CHR 0x0A \<or> c = CHR 0x0D)"

definition skip_ws :: "string \<Rightarrow> string" where
  "skip_ws s = dropWhile is_ws s"

definition hex_value :: "char \<Rightarrow> nat option" where
  "hex_value c =
     (let n = (of_char c :: nat) in
      if 48 \<le> n \<and> n \<le> 57 then Some (n - 48)
      else if 97 \<le> n \<and> n \<le> 102 then Some (n - 87)
      else if 65 \<le> n \<and> n \<le> 70 then Some (n - 55)
      else None)"

text \<open>The text after an opening quote: the decoded string and what follows the closing quote.\<close>

fun parse_chars :: "string \<Rightarrow> (string \<times> string) option" where
  "parse_chars [] = None"
| "parse_chars (c # cs) =
     (if c = CHR 0x22 then Some ([], cs)
      else if c = CHR 0x5C then
        (case cs of
           [] \<Rightarrow> None
         | e # r \<Rightarrow>
             (if e = CHR ''u'' then
                (case r of
                   a # b # x # y # r' \<Rightarrow>
                     (case (hex_value a, hex_value b, hex_value x, hex_value y) of
                        (Some 0, Some 0, Some h, Some l) \<Rightarrow>
                          (if h < 8 then
                             map_option (\<lambda>(t, rest). (char_of (16 * h + l) # t, rest)) (parse_chars r')
                           else None)
                      | _ \<Rightarrow> None)
                 | _ \<Rightarrow> None)
              else
                (case map_of [(CHR 0x22, CHR 0x22), (CHR 0x5C, CHR 0x5C), (CHR ''/'', CHR ''/''),
                              (CHR ''n'', CHR 0x0A), (CHR ''r'', CHR 0x0D), (CHR ''t'', CHR 0x09),
                              (CHR ''b'', CHR 0x08), (CHR ''f'', CHR 0x0C)] e of
                   None \<Rightarrow> None
                 | Some d \<Rightarrow> map_option (\<lambda>(t, rest). (d # t, rest)) (parse_chars r))))
      else if (of_char c :: nat) < 32 then None
      else map_option (\<lambda>(t, rest). (c # t, rest)) (parse_chars cs))"

definition is_digit :: "char \<Rightarrow> bool" where
  "is_digit c = (48 \<le> (of_char c :: nat) \<and> (of_char c :: nat) \<le> 57)"

definition digits_value :: "string \<Rightarrow> nat" where
  "digits_value ds = foldl (\<lambda>n c. 10 * n + (of_char c - 48)) 0 ds"

text \<open>An integer literal: \<^verbatim>\<open>-?(0|[1-9][0-9]*)\<close> that no fraction or exponent follows.\<close>

definition parse_int :: "string \<Rightarrow> (json \<times> string) option" where
  "parse_int s =
     (let neg = (s \<noteq> [] \<and> hd s = CHR ''-'');
          body = (if neg then tl s else s);
          ds = (if body \<noteq> [] \<and> hd body = CHR ''0'' then ''0'' else takeWhile is_digit body);
          rest = drop (length ds) body
      in if ds = [] \<or> (rest \<noteq> [] \<and> hd rest \<in> {CHR ''.'', CHR ''e'', CHR ''E''}) then None
         else Some (JNum (if neg then - int (digits_value ds) else int (digits_value ds)), rest))"

definition parse_literal :: "string \<Rightarrow> json \<Rightarrow> string \<Rightarrow> (json \<times> string) option" where
  "parse_literal w v s = (if take (length w) s = w then Some (v, drop (length w) s) else None)"

fun parse_value :: "nat \<Rightarrow> string \<Rightarrow> (json \<times> string) option"
  and parse_elements :: "nat \<Rightarrow> string \<Rightarrow> (json list \<times> string) option"
  and parse_members :: "nat \<Rightarrow> string \<Rightarrow> (pydict \<times> string) option" where
  "parse_value 0 s = None"
| "parse_value (Suc n) [] = None"
| "parse_value (Suc n) (c # r) =
     (if c = CHR 0x22 then map_option (\<lambda>(t, rest). (JStr t, rest)) (parse_chars r)
      else if c = CHR ''['' then
        (case skip_ws r of
           [] \<Rightarrow> None
         | c' # r' \<Rightarrow>
             if c' = CHR '']'' then Some (JArr [], r')
             else map_option (\<lambda>(vs, rest). (JArr vs, rest)) (parse_elements n (c' # r')))
      else if c = CHR ''{'' then
        (case skip_ws r of
           [] \<Rightarrow> None
         | c' # r' \<Rightarrow>
             if c' = CHR ''}'' then Some (JObj [], r')
             else map_option (\<lambda>(kvs, rest). (JObj (dict_merge [] kvs), rest))
                    (parse_members n (c' # r')))
      else if c = CHR ''n'' then parse_literal ''null'' JNull (c # r)
      else if c = CHR ''t'' then parse_literal ''true'' (JBool True) (c # r)
      else if c = CHR ''f'' then parse_literal ''false'' (JBool False) (c # r)
      else parse_int (c # r))"
| "parse_elements 0 s = None"
| "parse_elements (Suc n) s =
     (case parse_value n s of
        None \<Rightarrow> None
      | Some (v, r) \<Rightarrow>
          (case skip_ws r of
             [] \<Rightarrow> None
           | c # r' \<Rightarrow>
               if c = CHR '','' then
                 map_option (\<lambda>(vs, rest). (v # vs, rest)) (parse_elements n (skip_ws r'))
               else if c = CHR '']'' then Some ([v], r')
               else None))"
| "parse_members 0 s = None"
| "parse_members (Suc n) [] = None"
| "parse_members (Suc n) (q # s) =
     (if q \<noteq> CHR 0x22 then None
      else
        (case parse_chars s of
           None \<Rightarrow> None
         | Some (k, r1) \<Rightarrow>
             (case skip_ws r1 of
                [] \<Rightarrow> None
              | c1 # r2 \<Rightarrow>
                  if c1 \<noteq> CHR '':'' then None
                  else
                    (case parse_value n (skip_ws r2) of
                       None \<Rightarrow> None
                     | Some (v, r3) \<Rightarrow>
                         (case skip_ws r3 of
                            [] \<Rightarrow> None
                          | c2 # r4 \<Rightarrow>
                              if c2 = CHR '','' then
                                map_option (\<lambda>(kvs, rest). ((k, v) # kvs, rest))
                                  (parse_members n (skip_ws r4))
                              else if c2 = CHR ''}'' then Some ([(k, v)], r4)
                              else None)))))"

definition decode :: "string \<Rightarrow> json option" where
  "decode s =
     (case parse_value (Suc (length s)) (skip_ws s) of
        None \<Rightarrow> None
      | Some (v, rest) \<Rightarrow> if skip_ws rest = [] then Some v else None)"

definition py_json :: pyjson where
  "py_json = \<lparr>dumps = (\<lambda>indent. encode indent 0), loads = decode\<rparr>"

section \<open>Notions the properties are stated with\<close>

text \<open>The json module gives a document back: \<^verbatim>\<open>json.loads(json.dumps(v, indent=i)) == v\<close>.\<close>

definition round_trips :: "pyjson \<Rightarrow> nat option \<Rightarrow> json \<Rightarrow> bool" where
  "round_trips J indent v = (loads J (dumps J indent v) = Some v)"

text \<open>A key of an object; the entries of a document; the first entry with a given id.\<close>

fun field :: "json \<Rightarrow> string \<Rightarrow> json option" where
  "field (JObj d) k = map_of d k"
| "field v k = None"

definition plugins_of :: "json \<Rightarrow> json list" where
  "plugins_of doc =
     (case doc of
        JObj cfg \<Rightarrow> (case dict_get cfg ''plugins'' (JArr []) of JArr es \<Rightarrow> es | _ \<Rightarrow> [])
      | _ \<Rightarrow> [])"

definition find_plugin :: "string \<Rightarrow> json list \<Rightarrow> json option" where
  "find_plugin p es = find (\<lambda>e. field e ''id'' = Some (JStr p)) es"

text \<open>
  A plugin-config document: an object whose \<^verbatim>\<open>"plugins"\<close>, when present, is a list of
  objects that each have an \<^verbatim>\<open>"id"\<close>.
\<close>

definition has_id :: "json \<Rightarrow> bool" where
  "has_id e = (field e ''id'' \<noteq> None)"

definition is_document :: "json \<Rightarrow> bool" where
  "is_document doc =
     (case doc of
        JObj cfg \<Rightarrow>
          (case map_of cfg ''plugins'' of
             None \<Rightarrow> True
           | Some (JArr es) \<Rightarrow> list_all has_id es
           | Some _ \<Rightarrow> False)
      | _ \<Rightarrow> False)"

text \<open>The settings of an entry as a map, and an entry whose settings, when present, are a mapping.\<close>

definition settings_of :: "json \<Rightarrow> (string \<rightharpoonup> json)" where
  "settings_of e = (case field e ''settings'' of Some (JObj s) \<Rightarrow> map_of s | _ \<Rightarrow> Map.empty)"

definition settings_ok :: "json \<Rightarrow> bool" where
  "settings_ok e =
     (case field e ''settings'' of None \<Rightarrow> True | Some (JObj s) \<Rightarrow> True | Some _ \<Rightarrow> False)"

text \<open>
  The document \<^verbatim>\<open>patch_plugin\<close> hands to \<^verbatim>\<open>_write_config\<close> when it has read \<open>doc\<close> (and
  \<open>doc\<close> itself where it raises before it writes).
\<close>

definition written_document :: "string \<Rightarrow> pydict \<Rightarrow> json \<Rightarrow> json" where
  "written_document plugin_id body doc =
     (case doc of
        JObj cfg \<Rightarrow>
          (case dict_get cfg ''plugins'' (JArr []) of
             JArr es \<Rightarrow>
               (case patch_entries plugin_id body es of
                  Raised x es' \<Rightarrow> doc
                | Patched entry es' \<Rightarrow> JObj (dict_set cfg ''plugins'' (JArr es'))
                | NotFound \<Rightarrow>
                    JObj (dict_set cfg ''plugins'' (JArr (es @ [JObj
                      [(''id'', JStr plugin_id),
                       (''enabled'', dict_get body ''enabled'' (JBool True)),
                       (''settings'', dict_get body ''settings'' (JObj []))]]))))
           | _ \<Rightarrow> doc)
      | _ \<Rightarrow> doc)"

text \<open>The object the active-theme file gives as the name, when the file parses to a dict.\<close>

definition active_reference :: "posix \<Rightarrow> pyjson \<Rightarrow> directory \<Rightarrow> json option" where
  "active_reference E J fs =
     (case load_file E J fs ACTIVE_THEME_FILE of
        Some (JObj active_data) \<Rightarrow> Some (dict_get active_data ''name'' JNull)
      | _ \<Rightarrow> None)"

text \<open>None of the SDK calls that \<^verbatim>\<open>_create_bedrock_model\<close> makes for a configuration raises.\<close>

definition bedrock_calls_succeed :: "'f runtime \<Rightarrow> 'f BedrockConfig \<Rightarrow> bool" where
  "bedrock_calls_succeed R config =
     (case (case profile config of
              None \<Rightarrow> None
            | Some p \<Rightarrow> if p \<noteq> [] then Some p else None) of
        None \<Rightarrow> BedrockModel_raises R (bedrock_kwargs config None) = None
      | Some p \<Rightarrow>
          Session_raises R p = None \<and> client_raises R p ''bedrock-runtime'' = None \<and>
          BedrockModel_raises R
            (bedrock_kwargs config (Some (SessionClient p ''bedrock-runtime''))) = None)"

text \<open>
  What the instance above is proved on: documents whose dicts have unique keys, as every
  Python dict has. \<open>fuel\<close> bounds the recursion the parser needs; \<open>number_end\<close> and
  \<open>starts_value\<close> say what may follow an integer literal and what a value begins with.
\<close>

fun unique_keys :: "json \<Rightarrow> bool" where
  "unique_keys (JArr xs) = list_all unique_keys xs"
| "unique_keys (JObj d) = (distinct (map fst d) \<and> list_all (\<lambda>kv. unique_keys (snd kv)) d)"
| "unique_keys v = True"

fun fuel :: "json \<Rightarrow> nat" where
  "fuel (JArr xs) = Suc (sum_list (map (\<lambda>x. Suc (fuel x)) xs))"
| "fuel (JObj d) = Suc (sum_list (map (\<lambda>kv. Suc (fuel (snd kv))) d))"
| "fuel v = 1"

definition starts_value :: "string \<Rightarrow> bool" where
  "starts_value s =
     (case s of [] \<Rightarrow> False
      | c # _ \<Rightarrow> \<not> is_ws c \<and> c \<noteq> CHR '']'' \<and> c \<noteq> CHR ''}'')"

definition number_end :: "string \<Rightarrow> bool" where
  "number_end rest =
     (case rest of [] \<Rightarrow> True
      | c # _ \<Rightarrow> \<not> is_digit c \<and> c \<noteq> CHR ''.'' \<and> c \<noteq> CHR ''e'' \<and> c \<noteq> CHR ''E'')"

text \<open>Examples the properties are run on.\<close>

definition example_entry :: json where
  "example_entry = JObj [(''id'', JStr ''a''), (''enabled'', JBool False),
                         (''settings'', JObj [(''x'', JNum 1)])]"

definition example_document :: json where
  "example_document = JObj [(''plugins'', JArr [example_entry])]"

definition example_store :: store where
  "example_store = initial_store (Some (Text (dumps py_json (Some 2) example_document)))"

definition store_after_patch :: store where
  "store_after_patch =
     snd (patch_plugin py_json ''lavarrock.ui'' [(''enabled'', JBool False)] (initial_store None))"

definition example_theme :: pydict where
  "example_theme = [(''colors'', JObj [(''editor.background'', JStr ''#000000'')])]"

text \<open>
  A Linux process on an interpreter before Python 3.13. The examples use no name with a
  \<^verbatim>\<open>/\<close> in it; here such a path leads nowhere.
\<close>

definition linux :: posix where
  "linux = \<lparr>NAME_MAX = 255, nested = (\<lambda>p. Refused NotThere), exists_reraises = True\<rparr>"

definition example_themes :: directory where
  "example_themes =
     snd (upload_theme linux py_json \<lparr>ThemeUpload.name = ''dark'', theme = example_theme\<rparr>
            Map.empty)"

definition deleted_message :: json where
  "deleted_message = JObj [(''message'', JStr ''Theme deleted successfully'')]"

text \<open>
  A process with both SDKs installed, where \<^verbatim>\<open>dev\<close> is the one configured profile. No
  example passes a dict that names a known provider, so the constructors of the two
  classes are never consulted; an integer stands for the temperature.
\<close>

definition example_runtime :: "int runtime" where
  "example_runtime = \<lparr>ollama_importable = True, bedrock_importable = True,
      new_OllamaConfig = (\<lambda>d. None), new_BedrockConfig = (\<lambda>d. None),
      Session_raises = (\<lambda>p. if p = ''dev'' then None else Some ''ProfileNotFound''),
      client_raises = (\<lambda>p service. None),
      OllamaModel_raises = (\<lambda>c. None), BedrockModel_raises = (\<lambda>kw. None)\<rparr>"

definition example_bedrock :: "string option \<Rightarrow> int BedrockConfig" where
  "example_bedrock p = \<lparr>BedrockConfig.model_id = ''anthropic.claude-sonnet-4-20250514-v1:0'',
      region = ''us-west-2'', profile = p, temperature = 3\<rparr>"

section \<open>Dicts and the loop over the entries\<close>

lemma map_of_dict_set: "map_of (dict_set d k v) = (map_of d)(k \<mapsto> v)"
  by (induction d) auto

lemma map_of_dict_merge:
  "distinct (map fst b) \<Longrightarrow> map_of (dict_merge a b) = map_of a ++ map_of b"
  unfolding dict_merge_def
proof (induction b arbitrary: a)
  case Nil
  then show ?case by simp
next
  case (Cons kv b)
  obtain k v where kv: "kv = (k, v)" by (cases kv)
  from Cons.prems kv have nin: "k \<notin> fst ` set b" and d: "distinct (map fst b)" by auto
  have none: "map_of b k = None" using nin by (simp add: map_of_eq_None_iff)
  have eq: "(map_of a)(k \<mapsto> v) ++ map_of b = map_of a ++ map_of ((k, v) # b)"
  proof
    fix x show "((map_of a)(k \<mapsto> v) ++ map_of b) x = (map_of a ++ map_of ((k, v) # b)) x"
      using none by (cases "x = k") (simp_all add: map_add_def split: option.splits)
  qed
  have "map_of (foldl (\<lambda>d (k, v). dict_set d k v) a (kv # b))
          = map_of (foldl (\<lambda>d (k, v). dict_set d k v) (dict_set a k v) b)"
    using kv by simp
  also have "\<dots> = map_of (dict_set a k v) ++ map_of b"
    by (rule Cons.IH[OF d])
  also have "\<dots> = (map_of a)(k \<mapsto> v) ++ map_of b"
    by (simp only: map_of_dict_set)
  also have "\<dots> = map_of a ++ map_of ((k, v) # b)"
    by (rule eq)
  finally show ?case unfolding kv .
qed

lemma patch_entries_head:
  assumes i: "map_of ed ''id'' = Some (JStr p)"
    and ok: "settings_ok (JObj ed)"
    and new: "dict_get body ''settings'' (JObj []) = JObj new" "distinct (map fst new)"
  shows "\<exists>e'. patch_entries p body (JObj ed # xs) = Patched e' (e' # xs)
           \<and> field e' ''id'' = Some (JStr p)
           \<and> field e' ''enabled'' = Some (dict_get body ''enabled''
                 (case field (JObj ed) ''enabled'' of None \<Rightarrow> JBool True | Some v \<Rightarrow> v))
           \<and> settings_of e' = settings_of (JObj ed) ++ map_of new
           \<and> settings_ok e' \<and> has_id e'"
proof -
  define entry1 where "entry1 = dict_set ed ''enabled''
     (dict_get body ''enabled'' (dict_get ed ''enabled'' (JBool True)))"
  obtain old where old: "dict_get entry1 ''settings'' (JObj []) = JObj old"
    and so: "settings_of (JObj ed) = map_of old"
    using ok by (auto simp: settings_ok_def settings_of_def dict_get_def entry1_def
        map_of_dict_set split: option.splits json.splits)
  define e' where "e' = JObj (dict_set entry1 ''settings'' (JObj (dict_merge old new)))"
  have "patch_entries p body (JObj ed # xs) = Patched e' (e' # xs)"
    using i old new(1) by (simp add: entry1_def[symmetric] e'_def Let_def)
  moreover have "field e' ''id'' = Some (JStr p)"
    using i by (simp add: e'_def entry1_def map_of_dict_set)
  moreover have "field e' ''enabled'' = Some (dict_get body ''enabled''
                 (case field (JObj ed) ''enabled'' of None \<Rightarrow> JBool True | Some v \<Rightarrow> v))"
    by (simp add: e'_def entry1_def map_of_dict_set dict_get_def)
  moreover have "settings_of e' = settings_of (JObj ed) ++ map_of new"
    unfolding so using new(2)
    by (simp add: e'_def settings_of_def map_of_dict_set map_of_dict_merge)
  moreover have "settings_ok e'" by (simp add: e'_def settings_ok_def map_of_dict_set)
  moreover have "has_id e'" using i by (simp add: e'_def has_id_def entry1_def map_of_dict_set)
  ultimately show ?thesis by blast
qed

lemma patch_entries_found:
  assumes "list_all has_id es" "find_plugin p es = Some e" "settings_ok e"
    and "dict_get body ''settings'' (JObj []) = JObj new" "distinct (map fst new)"
  shows "\<exists>e' pre post. patch_entries p body es = Patched e' (pre @ e' # post)
           \<and> es = pre @ e # post \<and> find_plugin p pre = None
           \<and> field e' ''id'' = Some (JStr p)
           \<and> field e' ''enabled'' = Some (dict_get body ''enabled''
                 (case field e ''enabled'' of None \<Rightarrow> JBool True | Some v \<Rightarrow> v))
           \<and> settings_of e' = settings_of e ++ map_of new
           \<and> settings_ok e' \<and> has_id e'"
  using assms
proof (induction es)
  case Nil
  then show ?case by (simp add: find_plugin_def)
next
  case (Cons x xs)
  from Cons.prems(1) obtain ed i where x: "x = JObj ed" and i: "map_of ed ''id'' = Some i"
    by (cases x) (auto simp: has_id_def)
  show ?case
  proof (cases "i = JStr p")
    case True
    with Cons.prems x i have e: "e = JObj ed" by (simp add: find_plugin_def)
    from patch_entries_head[of ed p body new xs] i True Cons.prems(3,4,5) e
    obtain e' where h: "patch_entries p body (JObj ed # xs) = Patched e' (e' # xs)"
       "field e' ''id'' = Some (JStr p)"
       "field e' ''enabled'' = Some (dict_get body ''enabled''
                 (case field e ''enabled'' of None \<Rightarrow> JBool True | Some v \<Rightarrow> v))"
       "settings_of e' = settings_of e ++ map_of new" "settings_ok e'" "has_id e'"
      by auto
    have "patch_entries p body (x # xs) = Patched e' ([] @ e' # xs)
           \<and> x # xs = [] @ e # xs \<and> find_plugin p [] = None"
      using h(1) x e by (simp add: find_plugin_def)
    with h show ?thesis by blast
  next
    case False
    with Cons.prems x i have f: "find_plugin p xs = Some e" by (simp add: find_plugin_def)
    from Cons.prems have "list_all has_id xs" by simp
    from Cons.IH[OF this f Cons.prems(3,4,5)]
    obtain e' pre post where h: "patch_entries p body xs = Patched e' (pre @ e' # post)"
       "xs = pre @ e # post" "find_plugin p pre = None"
       "field e' ''id'' = Some (JStr p)"
       "field e' ''enabled'' = Some (dict_get body ''enabled''
                 (case field e ''enabled'' of None \<Rightarrow> JBool True | Some v \<Rightarrow> v))"
       "settings_of e' = settings_of e ++ map_of new" "settings_ok e'" "has_id e'"
      by blast
    have "patch_entries p body (x # xs) = Patched e' ((x # pre) @ e' # post)
           \<and> x # xs = (x # pre) @ e # post \<and> find_plugin p (x # pre) = None"
      using h(1,2,3) x i False by (simp add: find_plugin_def)
    with h(4-) show ?thesis by blast
  qed
qed

lemma patch_entries_not_found:
  assumes "list_all has_id es" "find_plugin p es = None"
  shows "patch_entries p body es = NotFound"
  using assms
proof (induction es)
  case Nil
  then show ?case by simp
next
  case (Cons x xs)
  from Cons.prems(1) obtain ed i where x: "x = JObj ed" and i: "map_of ed ''id'' = Some i"
    by (cases x) (auto simp: has_id_def)
  from Cons.prems(2) x i have ne: "i \<noteq> JStr p" and f: "find_plugin p xs = None"
    by (auto simp: find_plugin_def split: if_splits)
  from Cons.prems(1) have "list_all has_id xs" by simp
  from Cons.IH[OF this f] x i ne show ?case by simp
qed

section \<open>The instance of the json module gives every document back\<close>

lemma hex_value_digit_char: "d < 16 \<Longrightarrow> hex_value (digit_char d) = Some d"
proof -
  assume "d < 16"
  then have "d \<in> {0,1,2,3,4,5,6,7,8,9,10,11,12,13,14,15}" by auto arith
  then show ?thesis
    by (auto simp: hex_value_def digit_char_def Let_def)
qed

lemma parse_chars_escape:
  "parse_chars (json_escape c @ r) = map_option (\<lambda>(t, rest). (c # t, rest)) (parse_chars r)"
proof -
  consider (special) "c \<in> {CHR 0x22, CHR 0x5C, CHR 0x0A, CHR 0x0D, CHR 0x09, CHR 0x08, CHR 0x0C}"
    | (ctrl) "c \<notin> {CHR 0x22, CHR 0x5C, CHR 0x0A, CHR 0x0D, CHR 0x09, CHR 0x08, CHR 0x0C}"
        "(of_char c :: nat) < 32 \<or> c = CHR 0x7F"
    | (plain) "c \<notin> {CHR 0x22, CHR 0x5C, CHR 0x0A, CHR 0x0D, CHR 0x09, CHR 0x08, CHR 0x0C}"
        "\<not> ((of_char c :: nat) < 32 \<or> c = CHR 0x7F)"
    by blast
  then show ?thesis
  proof cases
    case special
    then show ?thesis by (auto simp: json_escape_def)
  next
    case ctrl
    define n where "n = (of_char c :: nat)"
    have n: "n < 128" using ctrl(2) by (auto simp: n_def)
    have c: "char_of n = c" by (simp add: n_def)
    have e: "json_escape c = [CHR 0x5C, CHR ''u'', CHR ''0'', CHR ''0'',
              digit_char (n div 16), digit_char (n mod 16)]"
      using ctrl by (auto simp: json_escape_def n_def)
    have h: "hex_value (digit_char (n div 16)) = Some (n div 16)"
            "hex_value (digit_char (n mod 16)) = Some (n mod 16)"
      using n by (simp_all add: hex_value_digit_char)
    have z: "hex_value CHR ''0'' = Some 0" by (simp add: hex_value_def)
    have lt: "n div 16 < 8" using n by simp
    show ?thesis unfolding e using h z lt c by simp
  next
    case plain
    then show ?thesis by (auto simp: json_escape_def)
  qed
qed

lemma parse_chars_quote:
  "parse_chars (concat (map json_escape s) @ CHR 0x22 # rest) = Some (s, rest)"
  by (induction s) (simp_all add: parse_chars_escape)

lemma digit_char_digit:
  "d < 10 \<Longrightarrow> is_digit (digit_char d) \<and> (of_char (digit_char d) :: nat) = 48 + d
     \<and> (digit_char d = CHR ''0'' \<longleftrightarrow> d = 0) \<and> digit_char d \<noteq> CHR ''-''"
proof -
  assume "d < 10"
  then have "d \<in> {0,1,2,3,4,5,6,7,8,9}" by auto
  then show ?thesis by (auto simp: is_digit_def digit_char_def)
qed

lemma show_nat_digits: "list_all is_digit (show_nat m) \<and> show_nat m \<noteq> []"
proof (induction m rule: show_nat.induct)
  case (1 n)
  show ?case
  proof (cases "n < 10")
    case True
    then show ?thesis by (subst show_nat.simps, subst (2) show_nat.simps) (simp add: digit_char_digit)
  next
    case False
    with 1 show ?thesis
      by (subst show_nat.simps, subst (2) show_nat.simps) (simp add: digit_char_digit)
  qed
qed

lemma digits_value_snoc:
  "digits_value (ds @ [c]) = 10 * digits_value ds + (of_char c - 48)"
  by (simp add: digits_value_def)

lemma digits_value_show_nat: "digits_value (show_nat m) = m"
proof (induction m rule: show_nat.induct)
  case (1 n)
  show ?case
  proof (cases "n < 10")
    case True
    then show ?thesis
      by (subst show_nat.simps) (simp add: digits_value_def digit_char_digit)
  next
    case False
    with 1 show ?thesis
      by (subst show_nat.simps) (simp add: digits_value_snoc digit_char_digit)
  qed
qed

lemma hd_show_nat_zero: "hd (show_nat m) = CHR ''0'' \<longleftrightarrow> m = 0"
proof (induction m rule: show_nat.induct)
  case (1 n)
  show ?case
  proof (cases "n < 10")
    case True
    then show ?thesis by (subst show_nat.simps) (simp add: digit_char_digit)
  next
    case False
    then have "n div 10 \<noteq> 0" by simp
    with 1 False show ?thesis
      using show_nat_digits[of "n div 10"]
      by (subst show_nat.simps) simp
  qed
qed

lemma show_nat_0: "show_nat 0 = ''0''"
  by (subst show_nat.simps) (simp add: digit_char_def)

lemma takeWhile_digits:
  "list_all is_digit ds \<Longrightarrow> number_end rest \<Longrightarrow> takeWhile is_digit (ds @ rest) = ds"
  by (induction ds) (auto simp: number_end_def split: list.splits)

lemma hd_show_nat_digit: "is_digit (hd (show_nat m)) \<and> hd (show_nat m) \<noteq> CHR ''-''"
proof -
  obtain c cs where s: "show_nat m = c # cs" using show_nat_digits[of m] by (cases "show_nat m") auto
  with show_nat_digits[of m] have "is_digit c" by simp
  moreover from this have "c \<noteq> CHR ''-''" by (auto simp: is_digit_def)
  ultimately show ?thesis using s by simp
qed

lemma parse_int_show_nat:
  assumes "number_end rest"
  shows "parse_int (show_nat m @ rest) = Some (JNum (int m), rest)"
proof -
  note d = show_nat_digits[of m] hd_show_nat_digit[of m]
  have ne: "show_nat m @ rest \<noteq> []" and hd: "hd (show_nat m @ rest) = hd (show_nat m)"
    using d by simp_all
  show ?thesis
  proof (cases "m = 0")
    case True
    then show ?thesis using assms
      by (simp add: parse_int_def show_nat_0 digits_value_def number_end_def split: list.splits)
  next
    case False
    then have nz: "hd (show_nat m) \<noteq> CHR ''0''" by (simp add: hd_show_nat_zero)
    have tw: "takeWhile is_digit (show_nat m @ rest) = show_nat m"
      using d assms by (simp add: takeWhile_digits)
    show ?thesis
      using ne hd nz d assms
      by (simp add: parse_int_def Let_def tw digits_value_show_nat number_end_def split: list.splits)
  qed
qed

lemma parse_int_show_int:
  assumes "number_end rest"
  shows "parse_int (show_int i @ rest) = Some (JNum i, rest)"
proof (cases "i < 0")
  case False
  then show ?thesis using parse_int_show_nat[OF assms, of "nat i"] by (simp add: show_int_def)
next
  case True
  define m where "m = nat (- i)"
  have m: "m \<noteq> 0" "i = - int m" using True by (simp_all add: m_def)
  note d = show_nat_digits[of m] hd_show_nat_digit[of m]
  have nz: "hd (show_nat m) \<noteq> CHR ''0''" using m by (simp add: hd_show_nat_zero)
  have tw: "takeWhile is_digit (show_nat m @ rest) = show_nat m"
    using d assms by (simp add: takeWhile_digits)
  have s: "show_int i = CHR ''-'' # show_nat m" using True by (simp add: show_int_def m_def)
  show ?thesis
    unfolding s using nz d assms m(2)
    by (simp add: parse_int_def Let_def tw digits_value_show_nat number_end_def split: list.splits)
qed

lemma hd_show_int: "show_int i \<noteq> [] \<and> (is_digit (hd (show_int i)) \<or> hd (show_int i) = CHR ''-'')"
  using hd_show_nat_digit show_nat_digits by (simp add: show_int_def)

lemma dict_set_fresh: "k \<notin> fst ` set a \<Longrightarrow> dict_set a k v = a @ [(k, v)]"
  by (induction a) auto

lemma dict_merge_fresh: "distinct (map fst (a @ d)) \<Longrightarrow> dict_merge a d = a @ d"
  unfolding dict_merge_def
proof (induction d arbitrary: a)
  case Nil
  then show ?case by simp
next
  case (Cons kv d)
  obtain k v where kv: "kv = (k, v)" by (cases kv)
  from Cons.prems kv have f: "k \<notin> fst ` set a" and d: "distinct (map fst ((a @ [(k, v)]) @ d))"
    by auto
  from Cons.IH[OF d] f kv show ?case by (simp add: dict_set_fresh)
qed

lemma skip_ws_newline_indent: "skip_ws (newline_indent i l @ r) = skip_ws r"
proof (cases i)
  case None
  then show ?thesis by (simp add: newline_indent_def)
next
  case (Some k)
  have "dropWhile is_ws (replicate n CHR '' '' @ r) = dropWhile is_ws r" for n
    by (induction n) (simp_all add: is_ws_def)
  with Some show ?thesis by (simp add: newline_indent_def skip_ws_def is_ws_def)
qed

lemma skip_ws_starts_value: "starts_value s \<Longrightarrow> skip_ws s = s"
  by (cases s) (simp_all add: starts_value_def skip_ws_def)

lemma skip_ws_punct [simp]:
  "skip_ws (CHR '','' # r) = CHR '','' # r"
  "skip_ws (CHR '':'' # r) = CHR '':'' # r"
  "skip_ws (CHR '']'' # r) = CHR '']'' # r"
  "skip_ws (CHR ''}'' # r) = CHR ''}'' # r"
  "skip_ws (CHR '' '' # r) = skip_ws r"
  by (simp_all add: skip_ws_def is_ws_def)

lemma number_end_punct [simp]:
  "number_end (CHR '','' # r)" "number_end (CHR '']'' # r)" "number_end (CHR ''}'' # r)"
  "number_end []"
  by (simp_all add: number_end_def is_digit_def)

lemma number_end_newline_indent:
  "number_end r \<Longrightarrow> number_end (newline_indent i l @ r)"
  by (cases i) (simp_all add: newline_indent_def number_end_def is_digit_def)

lemma number_end_item_separator: "number_end (item_separator i l @ r)"
  by (cases i) (simp_all add: item_separator_def number_end_def is_digit_def)

lemma skip_ws_item_separator:
  "\<exists>r'. skip_ws (item_separator i l @ r) = CHR '','' # r' \<and> skip_ws r' = skip_ws r"
  by (cases i) (simp_all add: item_separator_def skip_ws_newline_indent)

lemma starts_value_quote: "starts_value (json_quote s @ r)"
  by (simp add: json_quote_def starts_value_def is_ws_def)

lemma starts_value_encode: "starts_value (encode i l v @ r)"
proof (cases v)
  case (JNum n)
  from hd_show_int[of n] obtain c cs where "show_int n = c # cs" "is_digit c \<or> c = CHR ''-''"
    by (cases "show_int n") auto
  with JNum show ?thesis by (auto simp: starts_value_def is_ws_def is_digit_def)
qed (simp_all add: starts_value_def is_ws_def json_quote_def)

lemma starts_value_join:
  "xs \<noteq> [] \<Longrightarrow> starts_value (join sep (map (encode i l) xs) @ r)"
proof (cases xs)
  case (Cons x ys)
  then show ?thesis using starts_value_encode[of i l x]
    by (cases ys) (simp_all)
qed simp

lemma starts_value_join_members:
  "d \<noteq> [] \<Longrightarrow> starts_value (join sep (map (\<lambda>kv. json_quote (fst kv) @ f kv) d) @ r)"
proof (cases d)
  case (Cons x ys)
  then show ?thesis using starts_value_quote[of "fst x"]
    by (cases ys) (simp_all)
qed simp

lemma parse_value_number:
  "is_digit c \<or> c = CHR ''-'' \<Longrightarrow> parse_value (Suc n) (c # r) = parse_int (c # r)"
  by (auto simp: is_digit_def)

lemma parse_value_scalar:
  assumes "number_end rest"
  shows "parse_value (Suc n) (encode i l JNull @ rest) = Some (JNull, rest)"
    and "parse_value (Suc n) (encode i l (JBool b) @ rest) = Some (JBool b, rest)"
    and "parse_value (Suc n) (encode i l (JNum k) @ rest) = Some (JNum k, rest)"
    and "parse_value (Suc n) (encode i l (JStr s) @ rest) = Some (JStr s, rest)"
proof -
  show "parse_value (Suc n) (encode i l JNull @ rest) = Some (JNull, rest)"
    by (simp add: parse_literal_def)
  show "parse_value (Suc n) (encode i l (JBool b) @ rest) = Some (JBool b, rest)"
    by (simp add: parse_literal_def)
  from hd_show_int[of k] obtain c cs where s: "show_int k = c # cs" "is_digit c \<or> c = CHR ''-''"
    by (cases "show_int k") auto
  have "parse_value (Suc n) (show_int k @ rest) = parse_int (show_int k @ rest)"
    unfolding s(1) using s(2) by (simp only: append_Cons parse_value_number)
  then show "parse_value (Suc n) (encode i l (JNum k) @ rest) = Some (JNum k, rest)"
    using parse_int_show_int[OF assms] by simp
  show "parse_value (Suc n) (encode i l (JStr s) @ rest) = Some (JStr s, rest)"
    by (simp add: json_quote_def parse_chars_quote)
qed

lemma parse_elements_join:
  assumes "xs \<noteq> []"
    and "\<And>x rest n. x \<in> set xs \<Longrightarrow> number_end rest \<Longrightarrow> fuel x \<le> n \<Longrightarrow>
           parse_value n (encode i l' x @ rest) = Some (x, rest)"
    and "sum_list (map (\<lambda>x. Suc (fuel x)) xs) \<le> n"
  shows "parse_elements n (join (item_separator i l') (map (encode i l') xs)
           @ newline_indent i l @ CHR '']'' # rest) = Some (xs, rest)"
  using assms
proof (induction xs arbitrary: n)
  case Nil
  then show ?case by simp
next
  case (Cons x ys)
  from Cons.prems(3) obtain m where n: "n = Suc m" and m: "fuel x + sum_list (map (\<lambda>x. Suc (fuel x)) ys) \<le> m"
    by (cases n) auto
  show ?case
  proof (cases ys)
    case Nil
    let ?r = "newline_indent i l @ CHR '']'' # rest"
    have "parse_value m (encode i l' x @ ?r) = Some (x, ?r)"
      using m by (intro Cons.prems(2)) (simp_all add: number_end_newline_indent)
    then show ?thesis using Nil n by (simp add: skip_ws_newline_indent)
  next
    case (Cons y zs)
    let ?tail = "join (item_separator i l') (map (encode i l') ys) @ newline_indent i l @ CHR '']'' # rest"
    let ?r = "item_separator i l' @ ?tail"
    have pv: "parse_value m (encode i l' x @ ?r) = Some (x, ?r)"
      using m by (intro Cons.prems(2)) (simp_all add: number_end_item_separator)
    obtain r' where r': "skip_ws ?r = CHR '','' # r'" "skip_ws r' = skip_ws ?tail"
      using skip_ws_item_separator by blast
    have "starts_value ?tail" using Cons by (intro starts_value_join) simp
    then have st: "skip_ws r' = ?tail" using r'(2) by (simp add: skip_ws_starts_value)
    have ih: "parse_elements m ?tail = Some (ys, rest)"
      using Cons m Cons.prems(2) by (intro Cons.IH) simp_all
    have j: "join (item_separator i l') (map (encode i l') (x # ys))
               @ newline_indent i l @ CHR '']'' # rest = encode i l' x @ ?r"
      using Cons by simp
    show ?thesis unfolding j n using pv r'(1) st ih by simp
  qed
qed

lemma parse_members_join:
  assumes "d \<noteq> []"
    and "\<And>kv rest n. kv \<in> set d \<Longrightarrow> number_end rest \<Longrightarrow> fuel (snd kv) \<le> n \<Longrightarrow>
           parse_value n (encode i l' (snd kv) @ rest) = Some (snd kv, rest)"
    and "sum_list (map (\<lambda>kv. Suc (fuel (snd kv))) d) \<le> n"
  shows "parse_members n (join (item_separator i l')
             (map (\<lambda>kv. json_quote (fst kv) @ '': '' @ encode i l' (snd kv)) d)
           @ newline_indent i l @ CHR ''}'' # rest) = Some (d, rest)"
  using assms
proof (induction d arbitrary: n)
  case Nil
  then show ?case by simp
next
  case (Cons kv ys)
  obtain k v where kv: "kv = (k, v)" by (cases kv)
  from Cons.prems(3) kv obtain m where n: "n = Suc m"
    and m: "fuel v + sum_list (map (\<lambda>kv. Suc (fuel (snd kv))) ys) \<le> m"
    by (cases n) auto
  have member: "parse_members (Suc m) (json_quote k @ '': '' @ encode i l' v @ r)
      = (case skip_ws r of [] \<Rightarrow> None
         | c2 # r4 \<Rightarrow> if c2 = CHR '','' then
               map_option (\<lambda>(kvs, rest). ((k, v) # kvs, rest)) (parse_members m (skip_ws r4))
             else if c2 = CHR ''}'' then Some ([(k, v)], r4) else None)"
    if "number_end r" for r
  proof -
    have "parse_value m (encode i l' v @ r) = Some (v, r)"
      using Cons.prems(2)[of kv r m] kv m that by simp
    then show ?thesis
      using skip_ws_starts_value[OF starts_value_encode[of i l' v r]]
      by (simp add: json_quote_def parse_chars_quote)
  qed
  show ?case
  proof (cases ys)
    case Nil
    let ?r = "newline_indent i l @ CHR ''}'' # rest"
    have "number_end ?r" by (simp add: number_end_newline_indent)
    from member[OF this] show ?thesis using Nil n kv by (simp add: skip_ws_newline_indent)
  next
    case (Cons y zs)
    let ?tail = "join (item_separator i l')
        (map (\<lambda>kv. json_quote (fst kv) @ '': '' @ encode i l' (snd kv)) ys)
        @ newline_indent i l @ CHR ''}'' # rest"
    let ?r = "item_separator i l' @ ?tail"
    have ne: "number_end ?r" by (rule number_end_item_separator)
    obtain r' where r': "skip_ws ?r = CHR '','' # r'" "skip_ws r' = skip_ws ?tail"
      using skip_ws_item_separator by blast
    have "starts_value ?tail" using Cons by (intro starts_value_join_members) simp
    then have st: "skip_ws r' = ?tail" using r'(2) by (simp add: skip_ws_starts_value)
    have ih: "parse_members m ?tail = Some (ys, rest)"
      using Cons m Cons.prems(2) by (intro Cons.IH) simp_all
    have j: "join (item_separator i l')
        (map (\<lambda>kv. json_quote (fst kv) @ '': '' @ encode i l' (snd kv)) (kv # ys))
        @ newline_indent i l @ CHR ''}'' # rest = json_quote k @ '': '' @ encode i l' v @ ?r"
      using Cons kv by simp
    show ?thesis unfolding j n member[OF ne] using r'(1) st ih kv by simp
  qed
qed

lemma parse_value_encode:
  "unique_keys v \<Longrightarrow> number_end rest \<Longrightarrow> fuel v \<le> n \<Longrightarrow>
   parse_value n (encode i l v @ rest) = Some (v, rest)"
proof (induction v arbitrary: rest n l)
  case (JArr xs)
  from JArr.prems(3) obtain m where n: "n = Suc m" and m: "sum_list (map (\<lambda>x. Suc (fuel x)) xs) \<le> m"
    by (cases n) auto
  show ?case
  proof (cases "xs = []")
    case True
    then show ?thesis using n by simp
  next
    case False
    let ?body = "join (item_separator i (Suc l)) (map (encode i (Suc l)) xs)
                   @ newline_indent i l @ CHR '']'' # rest"
    have el: "parse_elements m ?body = Some (xs, rest)"
    proof (rule parse_elements_join[OF False _ m])
      fix x r k assume "x \<in> set xs" "number_end r" "fuel x \<le> k"
      with JArr.prems(1) show "parse_value k (encode i (Suc l) x @ r) = Some (x, r)"
        by (intro JArr.IH) (simp_all add: list_all_iff)
    qed
    have sv: "starts_value ?body" using False by (rule starts_value_join)
    then obtain c r where b: "?body = c # r" and c: "c \<noteq> CHR '']''"
      by (cases ?body) (auto simp: starts_value_def)
    have sk: "skip_ws (newline_indent i (Suc l) @ ?body) = c # r"
      using sv b by (simp add: skip_ws_newline_indent skip_ws_starts_value)
    have e: "encode i l (JArr xs) @ rest = CHR ''['' # newline_indent i (Suc l) @ ?body"
      using False by simp
    show ?thesis unfolding e n using sk c el b by simp
  qed
next
  case (JObj d)
  from JObj.prems(3) obtain m where n: "n = Suc m"
    and m: "sum_list (map (\<lambda>kv. Suc (fuel (snd kv))) d) \<le> m"
    by (cases n) auto
  from JObj.prems(1) have dist: "distinct (map fst d)" by simp
  show ?case
  proof (cases "d = []")
    case True
    then show ?thesis using n by simp
  next
    case False
    let ?body = "join (item_separator i (Suc l))
                   (map (\<lambda>kv. json_quote (fst kv) @ '': '' @ encode i (Suc l) (snd kv)) d)
                   @ newline_indent i l @ CHR ''}'' # rest"
    have el: "parse_members m ?body = Some (d, rest)"
    proof (rule parse_members_join[OF False _ m])
      fix kv r k assume a: "kv \<in> set d" "number_end r" "fuel (snd kv) \<le> k"
      have "snd kv \<in> Basic_BNFs.snds kv" by (cases kv) simp
      with a JObj.prems(1) show "parse_value k (encode i (Suc l) (snd kv) @ r) = Some (snd kv, r)"
        by (intro JObj.IH[of kv]) (simp_all add: list_all_iff)
    qed
    have sv: "starts_value ?body" using False by (rule starts_value_join_members)
    then obtain c r where b: "?body = c # r" and c: "c \<noteq> CHR ''}''"
      by (cases ?body) (auto simp: starts_value_def)
    have sk: "skip_ws (newline_indent i (Suc l) @ ?body) = c # r"
      using sv b by (simp add: skip_ws_newline_indent skip_ws_starts_value)
    have e: "encode i l (JObj d) @ rest = CHR ''{'' # newline_indent i (Suc l) @ ?body"
      using False by simp
    have dm: "dict_merge [] d = d" using dist dict_merge_fresh[of "[]" d] by simp
    show ?thesis unfolding e n using sk c el b dm by simp
  qed
next
  case JNull
  then obtain m where "n = Suc m" by (cases n) auto
  with JNull show ?case by (simp only: parse_value_scalar)
next
  case (JBool b)
  then obtain m where "n = Suc m" by (cases n) auto
  with JBool show ?case by (simp only: parse_value_scalar)
next
  case (JNum k)
  then obtain m where "n = Suc m" by (cases n) auto
  with JNum show ?case by (simp only: parse_value_scalar)
next
  case (JStr s)
  then obtain m where "n = Suc m" by (cases n) auto
  with JStr show ?case by (simp only: parse_value_scalar)
qed

lemma length_join:
  "sep \<noteq> [] \<Longrightarrow> sum_list (map length ys) + length ys \<le> Suc (length (join sep ys))"
proof (induction sep ys rule: join.induct)
  case (3 sep x y ys)
  then have ih: "sum_list (map length (y # ys)) + length (y # ys)
                   \<le> Suc (length (join sep (y # ys)))"
    by simp
  obtain c cs where "sep = c # cs" using "3.prems" by (cases sep) auto
  with ih show ?case by simp
qed simp_all

lemma item_separator_nonempty: "item_separator i l \<noteq> []"
  by (cases i) (simp_all add: item_separator_def)

lemma fuel_le_length: "fuel v \<le> length (encode i l v)"
proof (induction v arbitrary: l)
  case (JArr xs)
  show ?case
  proof (cases "xs = []")
    case True
    then show ?thesis by simp
  next
    case False
    have "sum_list (map (\<lambda>x. Suc (fuel x)) xs)
            \<le> sum_list (map (\<lambda>x. Suc (length (encode i (Suc l) x))) xs)"
      by (rule sum_list_mono) (simp add: JArr.IH)
    also have "\<dots> = sum_list (map length (map (encode i (Suc l)) xs))
                      + length (map (encode i (Suc l)) xs)"
      by (induction xs) simp_all
    also have "\<dots> \<le> Suc (length (join (item_separator i (Suc l)) (map (encode i (Suc l)) xs)))"
      by (rule length_join[OF item_separator_nonempty])
    finally show ?thesis using False by simp
  qed
next
  case (JObj d)
  show ?case
  proof (cases "d = []")
    case True
    then show ?thesis by simp
  next
    case False
    let ?f = "\<lambda>kv. json_quote (fst kv) @ '': '' @ encode i (Suc l) (snd kv)"
    have "sum_list (map (\<lambda>kv. Suc (fuel (snd kv))) d)
            \<le> sum_list (map (\<lambda>kv. Suc (length (?f kv))) d)"
    proof (rule sum_list_mono)
      fix kv assume "kv \<in> set d"
      moreover have "snd kv \<in> Basic_BNFs.snds kv" by (cases kv) simp
      ultimately have "fuel (snd kv) \<le> length (encode i (Suc l) (snd kv))"
        by (rule JObj.IH)
      then show "Suc (fuel (snd kv)) \<le> Suc (length (?f kv))" by simp
    qed
    also have "\<dots> = sum_list (map length (map ?f d)) + length (map ?f d)"
      by (induction d) simp_all
    also have "\<dots> \<le> Suc (length (join (item_separator i (Suc l)) (map ?f d)))"
      by (rule length_join[OF item_separator_nonempty])
    finally show ?thesis using False by simp
  qed
next
  case (JNum k)
  from hd_show_int[of k] show ?case by (cases "show_int k") simp_all
qed (simp_all add: json_quote_def)

lemma decode_encode: "unique_keys v \<Longrightarrow> decode (encode i 0 v) = Some v"
proof -
  assume u: "unique_keys v"
  have "fuel v \<le> Suc (length (encode i 0 v))"
    using fuel_le_length[of v i 0] by simp
  from parse_value_encode[OF u _ this, of "[]" i 0]
  have "parse_value (Suc (length (encode i 0 v))) (encode i 0 v) = Some (v, [])" by simp
  moreover have "skip_ws (encode i 0 v) = encode i 0 v"
    using skip_ws_starts_value[OF starts_value_encode[of i 0 v "[]"]] by simp
  ultimately show ?thesis by (simp add: decode_def skip_ws_def)
qed

lemma py_json_round_trips: "unique_keys v \<Longrightarrow> round_trips py_json i v"
  by (simp add: round_trips_def py_json_def decode_encode)

section \<open>Properties of the plugin configuration store\<close>

lemma plugins_of_dict_set:
  "plugins_of (JObj (dict_set cfg ''plugins'' (JArr es))) = es"
  by (simp add: plugins_of_def dict_get_def map_of_dict_set)

lemma is_document_dict_set:
  "list_all has_id es \<Longrightarrow> is_document (JObj (dict_set cfg ''plugins'' (JArr es)))"
  by (simp add: is_document_def map_of_dict_set)

lemma is_documentD:
  assumes "is_document doc"
  obtains cfg where "doc = JObj cfg" "dict_get cfg ''plugins'' (JArr []) = JArr (plugins_of doc)"
    "list_all has_id (plugins_of doc)"
  using assms
  by (cases doc) (auto simp: is_document_def plugins_of_def dict_get_def split: option.splits json.splits)

lemma DEFAULT_CONFIG_is_document: "is_document (JObj DEFAULT_CONFIG_literal)"
  by code_simp

lemma read_config_written:
  assumes "CONFIG_FILE st = Some (Text (dumps J i d))" "round_trips J i d"
  shows "read_config J st = Inr (d, Parsed)"
  using assms by (simp add: read_config_def json_load_def round_trips_def)

lemma find_plugin_mid:
  "find_plugin p pre = None \<Longrightarrow> field e ''id'' = Some (JStr p) \<Longrightarrow>
   find_plugin p (pre @ e # post) = Some e"
  by (induction pre) (auto simp: find_plugin_def split: if_splits)

lemma patch_plugin_found:
  assumes rd: "read_config J st = Inr (doc, org)"
    and wf: "is_document doc"
    and f: "find_plugin p (plugins_of doc) = Some e"
    and ok: "settings_ok e"
    and new: "dict_get body ''settings'' (JObj []) = JObj new" "distinct (map fst new)"
  shows "\<exists>e' pre post.
           fst (patch_plugin J p body st) = Inr e'
         \<and> CONFIG_FILE (snd (patch_plugin J p body st))
             = Some (Text (dumps J (Some 2) (written_document p body doc)))
         \<and> plugins_of doc = pre @ e # post
         \<and> plugins_of (written_document p body doc) = pre @ e' # post
         \<and> find_plugin p pre = None
         \<and> is_document (written_document p body doc)
         \<and> field e' ''id'' = Some (JStr p)
         \<and> field e' ''enabled'' = Some (dict_get body ''enabled''
               (case field e ''enabled'' of None \<Rightarrow> JBool True | Some v \<Rightarrow> v))
         \<and> settings_of e' = settings_of e ++ map_of new
         \<and> settings_ok e'"
proof -
  from wf obtain cfg where doc: "doc = JObj cfg"
    and pl: "dict_get cfg ''plugins'' (JArr []) = JArr (plugins_of doc)"
    and ids: "list_all has_id (plugins_of doc)"
    by (rule is_documentD)
  from patch_entries_found[OF ids f ok new]
  obtain e' pre post where h:
    "patch_entries p body (plugins_of doc) = Patched e' (pre @ e' # post)"
    "plugins_of doc = pre @ e # post" "find_plugin p pre = None"
    "field e' ''id'' = Some (JStr p)"
    "field e' ''enabled'' = Some (dict_get body ''enabled''
                 (case field e ''enabled'' of None \<Rightarrow> JBool True | Some v \<Rightarrow> v))"
    "settings_of e' = settings_of e ++ map_of new" "settings_ok e'" "has_id e'"
    by blast
  have w: "written_document p body doc = JObj (dict_set cfg ''plugins'' (JArr (pre @ e' # post)))"
    using doc pl h(1) by (simp add: written_document_def)
  have r: "fst (patch_plugin J p body st) = Inr e'"
    using rd doc pl h(1) by (simp add: patch_plugin_def)
  have c: "CONFIG_FILE (snd (patch_plugin J p body st))
             = Some (Text (dumps J (Some 2) (written_document p body doc)))"
    unfolding w using rd doc pl h(1) by (simp add: patch_plugin_def write_config_def)
  have "list_all has_id (pre @ e' # post)" using ids h(2) h(8) by simp
  then have d: "is_document (written_document p body doc)"
    unfolding w by (rule is_document_dict_set)
  have "plugins_of (written_document p body doc) = pre @ e' # post"
    unfolding w by (rule plugins_of_dict_set)
  with r c d h show ?thesis by blast
qed

lemma patch_plugin_not_found:
  assumes rd: "read_config J st = Inr (doc, org)"
    and wf: "is_document doc"
    and f: "find_plugin p (plugins_of doc) = None"
  shows "fst (patch_plugin J p body st)
           = Inr (JObj [(''id'', JStr p),
                        (''enabled'', dict_get body ''enabled'' (JBool True)),
                        (''settings'', dict_get body ''settings'' (JObj []))])"
    and "CONFIG_FILE (snd (patch_plugin J p body st))
           = Some (Text (dumps J (Some 2) (written_document p body doc)))"
    and "plugins_of (written_document p body doc)
           = plugins_of doc @ [JObj [(''id'', JStr p),
                        (''enabled'', dict_get body ''enabled'' (JBool True)),
                        (''settings'', dict_get body ''settings'' (JObj []))]]"
proof -
  from wf obtain cfg where doc: "doc = JObj cfg"
    and pl: "dict_get cfg ''plugins'' (JArr []) = JArr (plugins_of doc)"
    and ids: "list_all has_id (plugins_of doc)"
    by (rule is_documentD)
  have nf: "patch_entries p body (plugins_of doc) = NotFound"
    by (rule patch_entries_not_found[OF ids f])
  show "fst (patch_plugin J p body st)
           = Inr (JObj [(''id'', JStr p),
                        (''enabled'', dict_get body ''enabled'' (JBool True)),
                        (''settings'', dict_get body ''settings'' (JObj []))])"
    using rd doc pl nf by (simp add: patch_plugin_def Let_def)
  show "CONFIG_FILE (snd (patch_plugin J p body st))
           = Some (Text (dumps J (Some 2) (written_document p body doc)))"
    using rd doc pl nf by (simp add: patch_plugin_def Let_def written_document_def write_config_def)
  show "plugins_of (written_document p body doc)
           = plugins_of doc @ [JObj [(''id'', JStr p),
                        (''enabled'', dict_get body ''enabled'' (JBool True)),
                        (''settings'', dict_get body ''settings'' (JObj []))]]"
    using doc pl nf by (simp add: written_document_def plugins_of_dict_set)
qed

text \<open>
  Claim C1. On a document that has an entry with id \<open>p\<close>, \<^verbatim>\<open>patch_plugin\<close> returns the entry
  with the settings of the body merged over its own: keys the body does not name keep
  their values, and \<^verbatim>\<open>"enabled"\<close> keeps its value (\<^verbatim>\<open>True\<close> for an entry without one) when
  the body has none. A second patch with settings on disjoint keys, read back from the
  file the first one wrote, yields the original settings overridden by the union of the
  two patches, whichever order the union is taken in.
\<close>

theorem patch_plugin_merges_settings:
  assumes "read_config J st = Inr (doc, org)"
    and "is_document doc"
    and "find_plugin p (plugins_of doc) = Some e"
    and "settings_ok e"
    and "dict_get b1 ''settings'' (JObj []) = JObj s1" and "distinct (map fst s1)"
    and "dict_get b2 ''settings'' (JObj []) = JObj s2" and "distinct (map fst s2)"
    and "fst ` set s1 \<inter> fst ` set s2 = {}"
    and "round_trips J (Some 2) (written_document p b1 doc)"
  shows "\<exists>e1 e2.
       fst (patch_plugin J p b1 st) = Inr e1
     \<and> settings_of e1 = settings_of e ++ map_of s1
     \<and> (\<forall>k. k \<notin> fst ` set s1 \<longrightarrow> settings_of e1 k = settings_of e k)
     \<and> (map_of b1 ''enabled'' = None \<longrightarrow>
          field e1 ''enabled'' = Some (case field e ''enabled'' of None \<Rightarrow> JBool True | Some v \<Rightarrow> v))
     \<and> fst (patch_plugin J p b2 (snd (patch_plugin J p b1 st))) = Inr e2
     \<and> settings_of e2 = settings_of e ++ (map_of s1 ++ map_of s2)
     \<and> map_of s1 ++ map_of s2 = map_of s2 ++ map_of s1
     \<and> (map_of b1 ''enabled'' = None \<and> map_of b2 ''enabled'' = None \<longrightarrow>
          field e2 ''enabled'' = Some (case field e ''enabled'' of None \<Rightarrow> JBool True | Some v \<Rightarrow> v))
     \<and> CONFIG_FILE (snd (patch_plugin J p b2 (snd (patch_plugin J p b1 st))))
         = Some (Text (dumps J (Some 2) (written_document p b2 (written_document p b1 doc))))
     \<and> find_plugin p (plugins_of (written_document p b2 (written_document p b1 doc))) = Some e2"
proof -
  let ?st1 = "snd (patch_plugin J p b1 st)"
  let ?d1 = "written_document p b1 doc"
  from patch_plugin_found[OF assms(1-6)]
  obtain e1 pre post where h1:
    "fst (patch_plugin J p b1 st) = Inr e1"
    "CONFIG_FILE ?st1 = Some (Text (dumps J (Some 2) ?d1))"
    "plugins_of ?d1 = pre @ e1 # post" "find_plugin p pre = None"
    "is_document ?d1" "field e1 ''id'' = Some (JStr p)"
    "field e1 ''enabled'' = Some (dict_get b1 ''enabled''
          (case field e ''enabled'' of None \<Rightarrow> JBool True | Some v \<Rightarrow> v))"
    "settings_of e1 = settings_of e ++ map_of s1" "settings_ok e1"
    by blast
  have rd1: "read_config J ?st1 = Inr (?d1, Parsed)"
    by (rule read_config_written[OF h1(2) assms(10)])
  have f1: "find_plugin p (plugins_of ?d1) = Some e1"
    unfolding h1(3) by (rule find_plugin_mid[OF h1(4) h1(6)])
  from patch_plugin_found[OF rd1 h1(5) f1 h1(9) assms(7,8)]
  obtain e2 pre' post' where h2:
    "fst (patch_plugin J p b2 ?st1) = Inr e2"
    "CONFIG_FILE (snd (patch_plugin J p b2 ?st1))
       = Some (Text (dumps J (Some 2) (written_document p b2 ?d1)))"
    "plugins_of (written_document p b2 ?d1) = pre' @ e2 # post'" "find_plugin p pre' = None"
    "field e2 ''id'' = Some (JStr p)"
    "field e2 ''enabled'' = Some (dict_get b2 ''enabled''
          (case field e1 ''enabled'' of None \<Rightarrow> JBool True | Some v \<Rightarrow> v))"
    "settings_of e2 = settings_of e1 ++ map_of s2"
    by blast
  have keep: "\<forall>k. k \<notin> fst ` set s1 \<longrightarrow> settings_of e1 k = settings_of e k"
    by (simp add: h1(8) map_add_def map_of_eq_None_iff[symmetric] split: option.splits)
  have en1: "map_of b1 ''enabled'' = None \<longrightarrow>
      field e1 ''enabled'' = Some (case field e ''enabled'' of None \<Rightarrow> JBool True | Some v \<Rightarrow> v)"
    by (simp add: h1(7) dict_get_def)
  have en2: "map_of b1 ''enabled'' = None \<and> map_of b2 ''enabled'' = None \<longrightarrow>
      field e2 ''enabled'' = Some (case field e ''enabled'' of None \<Rightarrow> JBool True | Some v \<Rightarrow> v)"
    by (simp add: h2(6) h1(7) dict_get_def)
  have s2: "settings_of e2 = settings_of e ++ (map_of s1 ++ map_of s2)"
    by (simp add: h2(7) h1(8))
  have "dom (map_of s1) \<inter> dom (map_of s2) = {}"
    using assms(9) by (simp add: dom_map_of_conv_image_fst)
  then have comm: "map_of s1 ++ map_of s2 = map_of s2 ++ map_of s1"
    by (rule map_add_comm)
  have f2: "find_plugin p (plugins_of (written_document p b2 ?d1)) = Some e2"
    unfolding h2(3) by (rule find_plugin_mid[OF h2(4) h2(5)])
  show ?thesis
    by (intro exI[of _ e1] exI[of _ e2] conjI;
        (rule h1(1) h1(8) keep en1 h2(1) s2 comm en2 h2(2) f2))
qed

theorem patch_plugin_merges_settings_witness:
  "read_config py_json example_store = Inr (example_document, Parsed)
   \<and> is_document example_document
   \<and> find_plugin ''a'' (plugins_of example_document) = Some example_entry
   \<and> settings_ok example_entry
   \<and> round_trips py_json (Some 2)
        (written_document ''a'' [(''settings'', JObj [(''y'', JNum 2)])] example_document)
   \<and> (\<exists>e1 e2.
        fst (patch_plugin py_json ''a'' [(''settings'', JObj [(''y'', JNum 2)])] example_store) = Inr e1
      \<and> fst (patch_plugin py_json ''a'' [(''settings'', JObj [(''z'', JNum 3)])]
               (snd (patch_plugin py_json ''a'' [(''settings'', JObj [(''y'', JNum 2)])] example_store)))
            = Inr e2
      \<and> settings_of e2 = settings_of example_entry ++ (map_of [(''y'', JNum 2)] ++ map_of [(''z'', JNum 3)])
      \<and> field e2 ''enabled'' = Some (JBool False))"
proof -
  have h1: "read_config py_json example_store = Inr (example_document, Parsed)"
    by code_simp
  have h2: "is_document example_document" by code_simp
  have h3: "find_plugin ''a'' (plugins_of example_document) = Some example_entry" by code_simp
  have h4: "settings_ok example_entry" by code_simp
  have h5: "dict_get [(''settings'', JObj [(''y'', JNum 2)])] ''settings'' (JObj []) = JObj [(''y'', JNum 2)]"
    by (simp add: dict_get_def)
  have h6: "dict_get [(''settings'', JObj [(''z'', JNum 3)])] ''settings'' (JObj []) = JObj [(''z'', JNum 3)]"
    by (simp add: dict_get_def)
  have h7: "fst ` set [(''y'', JNum 2)] \<inter> fst ` set [(''z'', JNum 3)] = {}" by simp
  have h8: "round_trips py_json (Some 2)
        (written_document ''a'' [(''settings'', JObj [(''y'', JNum 2)])] example_document)"
    by code_simp
  have en: "field example_entry ''enabled'' = Some (JBool False)" by (simp add: example_entry_def)
  from patch_plugin_merges_settings[OF h1 h2 h3 h4 h5 _ h6 _ h7 h8]
  have "\<exists>e1 e2.
        fst (patch_plugin py_json ''a'' [(''settings'', JObj [(''y'', JNum 2)])] example_store) = Inr e1
      \<and> fst (patch_plugin py_json ''a'' [(''settings'', JObj [(''z'', JNum 3)])]
               (snd (patch_plugin py_json ''a'' [(''settings'', JObj [(''y'', JNum 2)])] example_store)))
            = Inr e2
      \<and> settings_of e2 = settings_of example_entry ++ (map_of [(''y'', JNum 2)] ++ map_of [(''z'', JNum 3)])
      \<and> field e2 ''enabled'' = Some (JBool False)"
    by (simp add: en) blast
  with h1 h2 h3 h4 h8 show ?thesis by blast
qed

text \<open>
  Claim C2. \<^verbatim>\<open>put_config\<close> followed by \<^verbatim>\<open>get_config\<close> returns the document that was put,
  whatever the file held before, for every document the json module gives back from its
  own output.
\<close>

theorem put_config_round_trip:
  assumes "round_trips J (Some 2) (JObj body)"
  shows "fst (put_config J body st) = JObj body
       \<and> read_config J (snd (put_config J body st)) = Inr (JObj body, Parsed)
       \<and> get_config J (snd (put_config J body st)) = Inr (JObj body)"
  using assms
  by (simp add: put_config_def write_config_def get_config_def read_config_def json_load_def
      round_trips_def)

theorem put_config_round_trip_witness:
  "round_trips py_json (Some 2) (JObj [(''plugins'', JArr [example_entry])])
   \<and> get_config py_json (snd (put_config py_json [(''plugins'', JArr [example_entry])]
        (initial_store (Some Undecodable))))
       = Inr (JObj [(''plugins'', JArr [example_entry])])"
proof -
  have h: "round_trips py_json (Some 2) (JObj [(''plugins'', JArr [example_entry])])"
    by code_simp
  from put_config_round_trip[OF h] h show ?thesis by blast
qed

text \<open>
  Claim C4. On a document with no entry of id \<open>p\<close>, \<^verbatim>\<open>patch_plugin\<close> returns and appends
  one entry: id \<open>p\<close>, \<^verbatim>\<open>"enabled"\<close> from the body or \<^verbatim>\<open>True\<close>, \<^verbatim>\<open>"settings"\<close> from the body
  or \<^verbatim>\<open>{}\<close>. The entries before it are unchanged, there is one entry more, and the
  next read returns that document.
\<close>

theorem patch_plugin_appends_new_entry:
  assumes "read_config J st = Inr (doc, org)"
    and "is_document doc"
    and "find_plugin p (plugins_of doc) = None"
  shows "fst (patch_plugin J p body st)
           = Inr (JObj [(''id'', JStr p),
                        (''enabled'', dict_get body ''enabled'' (JBool True)),
                        (''settings'', dict_get body ''settings'' (JObj []))])
       \<and> CONFIG_FILE (snd (patch_plugin J p body st))
           = Some (Text (dumps J (Some 2) (written_document p body doc)))
       \<and> plugins_of (written_document p body doc)
           = plugins_of doc @ [JObj [(''id'', JStr p),
                        (''enabled'', dict_get body ''enabled'' (JBool True)),
                        (''settings'', dict_get body ''settings'' (JObj []))]]
       \<and> length (plugins_of (written_document p body doc)) = Suc (length (plugins_of doc))
       \<and> (round_trips J (Some 2) (written_document p body doc) \<longrightarrow>
            get_config J (snd (patch_plugin J p body st)) = Inr (written_document p body doc))"
proof -
  note nf = patch_plugin_not_found[OF assms, of body]
  have "length (plugins_of (written_document p body doc)) = Suc (length (plugins_of doc))"
    by (simp add: nf(3))
  moreover have "round_trips J (Some 2) (written_document p body doc) \<longrightarrow>
            get_config J (snd (patch_plugin J p body st)) = Inr (written_document p body doc)"
    using read_config_written[OF nf(2)] by (simp add: get_config_def)
  ultimately show ?thesis using nf by simp
qed

theorem patch_plugin_appends_new_entry_witness:
  "read_config py_json example_store = Inr (example_document, Parsed)
   \<and> is_document example_document
   \<and> find_plugin ''b'' (plugins_of example_document) = None
   \<and> round_trips py_json (Some 2) (written_document ''b'' [(''enabled'', JBool False)] example_document)
   \<and> fst (patch_plugin py_json ''b'' [(''enabled'', JBool False)] example_store)
       = Inr (JObj [(''id'', JStr ''b''), (''enabled'', JBool False), (''settings'', JObj [])])
   \<and> plugins_of (written_document ''b'' [(''enabled'', JBool False)] example_document)
       = [example_entry, JObj [(''id'', JStr ''b''), (''enabled'', JBool False), (''settings'', JObj [])]]
   \<and> get_config py_json (snd (patch_plugin py_json ''b'' [(''enabled'', JBool False)] example_store))
       = Inr (written_document ''b'' [(''enabled'', JBool False)] example_document)"
proof -
  have h1: "read_config py_json example_store = Inr (example_document, Parsed)"
    by code_simp
  have h2: "is_document example_document" by code_simp
  have h3: "find_plugin ''b'' (plugins_of example_document) = None" by code_simp
  have h4: "round_trips py_json (Some 2)
      (written_document ''b'' [(''enabled'', JBool False)] example_document)"
    by code_simp
  have p: "plugins_of example_document = [example_entry]" by code_simp
  from patch_plugin_appends_new_entry[OF h1 h2 h3, of "[(''enabled'', JBool False)]"] h1 h2 h3 h4
  show ?thesis by (simp add: dict_get_def p)
qed

text \<open>
  Claim C3 says a read never raises on a file that is not valid JSON. A file whose bytes
  are not UTF-8 text makes \<^verbatim>\<open>read_text\<close> raise \<^verbatim>\<open>UnicodeDecodeError\<close>, which the
  \<^verbatim>\<open>except\<close> clause does not name: the read raises.
\<close>

theorem read_config_raises_on_undecodable_file:
  "get_config py_json (initial_store (Some Undecodable)) = Inl UnicodeDecodeError"
  by (simp add: get_config_def read_config_def initial_store_def json_load_def)

text \<open>
  The part of claim C3 that holds: an absent file, a file whose read raises \<^verbatim>\<open>OSError\<close>
  and a text that is not JSON give \<^verbatim>\<open>DEFAULT_CONFIG\<close> as the process holds it. A read
  returns no new state: it writes nothing.
\<close>

lemma read_config_falls_back:
  assumes "CONFIG_FILE st = None \<or> CONFIG_FILE st = Some Unreadable
           \<or> (\<exists>t. CONFIG_FILE st = Some (Text t) \<and> loads J t = None)"
  shows "get_config J st = Inr (JObj (DEFAULT_CONFIG st))"
  using assms by (auto simp: get_config_def read_config_def json_load_def)

text \<open>
  Claim C10 says the default document is never altered. A patch applied to a
  default-fallback read mutates the entries that \<^verbatim>\<open>DEFAULT_CONFIG\<close> shares with its shallow
  copy: when the file is absent again, the read no longer returns the literal.
\<close>

theorem default_config_is_mutated:
  "get_config py_json (initial_store None) = Inr (JObj DEFAULT_CONFIG_literal)
   \<and> map_sum id (\<lambda>doc. find_plugin ''lavarrock.ui'' (plugins_of doc))
        (get_config py_json (store_after_patch\<lparr>CONFIG_FILE := None\<rparr>))
       = Inr (Some (JObj [(''id'', JStr ''lavarrock.ui''), (''enabled'', JBool False),
                          (''settings'', JObj [])]))
   \<and> get_config py_json (store_after_patch\<lparr>CONFIG_FILE := None\<rparr>)
       \<noteq> Inr (JObj DEFAULT_CONFIG_literal)"
  by code_simp

section \<open>Properties of the theme store\<close>

lemma resolve_plain:
  "CHR 0x00 \<notin> set p \<Longrightarrow> CHR ''/'' \<notin> set p \<Longrightarrow> length p \<le> NAME_MAX E \<Longrightarrow> resolve E p = At p"
  by (simp add: resolve_def)

lemma resolve_theme_path:
  "plain_name x \<Longrightarrow> length (theme_path x) \<le> NAME_MAX E \<Longrightarrow>
   resolve E (theme_path x) = At (theme_path x)"
  by (rule resolve_plain) (auto simp: plain_name_def theme_path_def)

lemma resolve_active:
  "length ACTIVE_THEME_FILE \<le> NAME_MAX E \<Longrightarrow> resolve E ACTIVE_THEME_FILE = At ACTIVE_THEME_FILE"
  by (rule resolve_plain) (auto simp: ACTIVE_THEME_FILE_def)

lemma theme_path_active: "theme_path x = ACTIVE_THEME_FILE \<longleftrightarrow> x = ''active_theme''"
  by (simp add: theme_path_def ACTIVE_THEME_FILE_def)

text \<open>
  Claim C9, amended. For a name whose file name is within the limit of the file system
  and whose theme file does not exist, \<^verbatim>\<open>delete_theme\<close> fails with a 404 and leaves every
  file of the directory, the active-theme file included, as it was.
\<close>

theorem delete_missing_theme:
  assumes "CHR ''/'' \<notin> set x"
    and "length (theme_path x) \<le> NAME_MAX E"
    and "fs (theme_path x) = None"
  shows "delete_theme E J x fs = (Inl (HTTPException 404), fs)"
proof -
  have "path_exists E fs (theme_path x) = Some False"
  proof (cases "CHR 0x00 \<in> set x")
    case True
    then show ?thesis by (simp add: path_exists_def resolve_def theme_path_def)
  next
    case False
    with assms(1) have "plain_name x" by (simp add: plain_name_def)
    from resolve_theme_path[OF this assms(2)] assms(3) show ?thesis
      by (simp add: path_exists_def)
  qed
  then show ?thesis by (simp add: delete_theme_def)
qed

theorem delete_missing_theme_witness:
  "CHR ''/'' \<notin> set ''light''
   \<and> length (theme_path ''light'') \<le> NAME_MAX linux
   \<and> example_themes (theme_path ''light'') = None
   \<and> delete_theme linux py_json ''light'' example_themes
       = (Inl (HTTPException 404), example_themes)"
proof -
  have h1: "CHR ''/'' \<notin> set ''light''" by simp
  have h2: "length (theme_path ''light'') \<le> NAME_MAX linux" by (simp add: theme_path_def linux_def)
  have h3: "example_themes (theme_path ''light'') = None" by code_simp
  from delete_missing_theme[where x="''light''" and E=linux and fs=example_themes and J=py_json]
    h1 h2 h3 show ?thesis by blast
qed

text \<open>
  Claim C9 as stated, for every name, fails at a name of 300 bytes: no such theme file
  exists, \<^verbatim>\<open>theme_file.exists()\<close> raises \<^verbatim>\<open>OSError\<close> inside the \<^verbatim>\<open>try\<close>, and the answer is
  the 500 of \<^verbatim>\<open>except Exception\<close>, not a 404.
\<close>

theorem delete_long_name_counterexample:
  "example_themes (theme_path (replicate 300 CHR ''a'')) = None
   \<and> delete_theme linux py_json (replicate 300 CHR ''a'') example_themes
       = (Inl (HTTPException 500), example_themes)"
proof -
  have a: "example_themes (theme_path (replicate 300 CHR ''a'')) = None" by code_simp
  have "path_exists linux example_themes (theme_path (replicate 300 CHR ''a'')) = None"
    by (simp add: path_exists_def resolve_def theme_path_def linux_def)
  then have "delete_theme linux py_json (replicate 300 CHR ''a'') example_themes
       = (Inl (HTTPException 500), example_themes)"
    by (simp add: delete_theme_def)
  with a show ?thesis by simp
qed

text \<open>Where \<^verbatim>\<open>exists\<close> raises, the answer is a 500 and nothing is touched.\<close>

lemma delete_refused_name:
  assumes "path_exists E fs (theme_path x) = None"
  shows "delete_theme E J x fs = (Inl (HTTPException 500), fs)"
  using assms by (simp add: delete_theme_def)

text \<open>
  Claim C7, amended. For a name that is not empty, is not \<^verbatim>\<open>active_theme\<close>, is a plain
  file name and is within the limit of the file system, \<^verbatim>\<open>upload_theme\<close> returns the theme
  marked active, overwrites the theme file with the document, points the active-theme
  file at the name and touches no other file; \<^verbatim>\<open>get_active_theme\<close> then returns the name
  and the document, marked active.
\<close>

theorem upload_then_get_active:
  assumes "x \<noteq> []" and "x \<noteq> ''active_theme''" and "plain_name x"
    and "length (theme_path x) \<le> NAME_MAX E"
    and "length ACTIVE_THEME_FILE \<le> NAME_MAX E"
    and "round_trips J (Some 2) (JObj T)"
    and "round_trips J None (JObj [(''name'', JStr x)])"
  shows "fst (upload_theme E J \<lparr>ThemeUpload.name = x, theme = T\<rparr> fs)
           = Inr \<lparr>name = x, theme = T, active = True\<rparr>
       \<and> snd (upload_theme E J \<lparr>ThemeUpload.name = x, theme = T\<rparr> fs) (theme_path x)
           = Some (Text (dumps J (Some 2) (JObj T)))
       \<and> snd (upload_theme E J \<lparr>ThemeUpload.name = x, theme = T\<rparr> fs) ACTIVE_THEME_FILE
           = Some (Text (dumps J None (JObj [(''name'', JStr x)])))
       \<and> (\<forall>f. f \<noteq> theme_path x \<and> f \<noteq> ACTIVE_THEME_FILE \<longrightarrow>
             snd (upload_theme E J \<lparr>ThemeUpload.name = x, theme = T\<rparr> fs) f = fs f)
       \<and> get_active_theme E J (snd (upload_theme E J \<lparr>ThemeUpload.name = x, theme = T\<rparr> fs))
           = Inr (Some \<lparr>name = x, theme = T, active = True\<rparr>)"
proof -
  have ne: "theme_path x \<noteq> ACTIVE_THEME_FILE" using assms(2) by (simp add: theme_path_active)
  have rt: "resolve E (theme_path x) = At (theme_path x)"
    by (rule resolve_theme_path[OF assms(3,4)])
  have ra: "resolve E ACTIVE_THEME_FILE = At ACTIVE_THEME_FILE"
    by (rule resolve_active[OF assms(5)])
  have l1: "json_load J (Text (dumps J (Some 2) (JObj T))) = Inr (JObj T)"
    using assms(6) by (simp add: json_load_def round_trips_def)
  have l2: "json_load J (Text (dumps J None (JObj [(''name'', JStr x)])))
              = Inr (JObj [(''name'', JStr x)])"
    using assms(7) by (simp add: json_load_def round_trips_def)
  let ?fs = "fs(theme_path x \<mapsto> Text (dumps J (Some 2) (JObj T)),
               ACTIVE_THEME_FILE \<mapsto> Text (dumps J None (JObj [(''name'', JStr x)])))"
  have u: "upload_theme E J \<lparr>ThemeUpload.name = x, theme = T\<rparr> fs
             = (Inr \<lparr>name = x, theme = T, active = True\<rparr>, ?fs)"
    using rt ra by (simp add: upload_theme_def open_write_def)
  have g: "get_active_theme E J ?fs = Inr (Some \<lparr>name = x, theme = T, active = True\<rparr>)"
    using ne rt ra l1 l2 assms(1)
    by (simp add: get_active_theme_def path_exists_def load_file_def dict_get_def py_str_def)
  show ?thesis unfolding u using ne g by simp
qed

theorem upload_then_get_active_witness:
  "plain_name ''dark''
   \<and> length (theme_path ''dark'') \<le> NAME_MAX linux
   \<and> length ACTIVE_THEME_FILE \<le> NAME_MAX linux
   \<and> round_trips py_json (Some 2) (JObj example_theme)
   \<and> round_trips py_json None (JObj [(''name'', JStr ''dark'')])
   \<and> get_active_theme linux py_json
        (snd (upload_theme linux py_json \<lparr>ThemeUpload.name = ''dark'', theme = example_theme\<rparr>
               [''dark.json'' \<mapsto> Text ''{}'']))
       = Inr (Some \<lparr>name = ''dark'', theme = example_theme, active = True\<rparr>)"
proof -
  have h1: "''dark'' \<noteq> []" and h2: "''dark'' \<noteq> ''active_theme''" by simp_all
  have h3: "plain_name ''dark''" by (simp add: plain_name_def)
  have h4: "length (theme_path ''dark'') \<le> NAME_MAX linux" by (simp add: theme_path_def linux_def)
  have h5: "length ACTIVE_THEME_FILE \<le> NAME_MAX linux"
    by (simp add: ACTIVE_THEME_FILE_def linux_def)
  have h6: "round_trips py_json (Some 2) (JObj example_theme)" by code_simp
  have h7: "round_trips py_json None (JObj [(''name'', JStr ''dark'')])" by code_simp
  from upload_then_get_active[OF h1 h2 h3 h4 h5 h6 h7, of "[''dark.json'' \<mapsto> Text ''{}'']"]
    h3 h4 h5 h6 h7
  show ?thesis by blast
qed

text \<open>
  Claim C7 as stated, for every name, fails at the empty name: the upload stores the theme
  and points the reference at \<^verbatim>\<open>""\<close>, which \<^verbatim>\<open>if not theme_name\<close> in \<^verbatim>\<open>get_active_theme\<close>
  takes for no active theme.
\<close>

theorem upload_empty_name_counterexample:
  "get_active_theme linux py_json
     (snd (upload_theme linux py_json \<lparr>ThemeUpload.name = '''', theme = example_theme\<rparr> Map.empty))
     = Inr None
   \<and> get_active_theme linux py_json
     (snd (upload_theme linux py_json \<lparr>ThemeUpload.name = '''', theme = example_theme\<rparr> Map.empty))
     \<noteq> Inr (Some \<lparr>name = '''', theme = example_theme, active = True\<rparr>)"
  by code_simp

text \<open>
  A name the system refuses (over the limit, or with a NUL byte) makes \<^verbatim>\<open>open\<close> raise:
  the upload answers 500 and stores nothing.
\<close>

lemma upload_refused_name:
  assumes "open_write E (theme_path x) = None"
  shows "upload_theme E J \<lparr>ThemeUpload.name = x, theme = T\<rparr> fs = (Inl (HTTPException 500), fs)"
  using assms by (simp add: upload_theme_def)

lemma upload_long_name:
  "upload_theme linux py_json \<lparr>ThemeUpload.name = replicate 300 CHR ''a'', theme = example_theme\<rparr>
     example_themes = (Inl (HTTPException 500), example_themes)"
  by (rule upload_refused_name) (simp add: open_write_def resolve_def theme_path_def linux_def)

text \<open>
  Claim C8 says that deleting a theme other than the active one leaves the reference
  alone. With \<^verbatim>\<open>dark\<close> active, \<^verbatim>\<open>delete_theme\<close> on the name \<^verbatim>\<open>active_theme\<close> finds
  \<^verbatim>\<open>active_theme.json\<close>, succeeds, and what it unlinked is the reference itself, while
  the theme file of \<^verbatim>\<open>dark\<close> stays: \<^verbatim>\<open>list_themes\<close> skips that file, \<^verbatim>\<open>delete_theme\<close>
  does not.
\<close>

theorem delete_active_theme_file_clears_reference:
  "get_active_theme linux py_json example_themes
     = Inr (Some \<lparr>name = ''dark'', theme = example_theme, active = True\<rparr>)
   \<and> active_reference linux py_json example_themes = Some (JStr ''dark'')
   \<and> fst (delete_theme linux py_json ''active_theme'' example_themes) = Inr deleted_message
   \<and> snd (delete_theme linux py_json ''active_theme'' example_themes) ACTIVE_THEME_FILE = None
   \<and> snd (delete_theme linux py_json ''active_theme'' example_themes) (theme_path ''dark'')
       = example_themes (theme_path ''dark'')
   \<and> example_themes (theme_path ''dark'') \<noteq> None
   \<and> get_active_theme linux py_json (snd (delete_theme linux py_json ''active_theme'' example_themes))
       = Inr None"
  by code_simp

lemma path_exists_At: "resolve E p = At l \<Longrightarrow> path_exists E fs p = Some (fs l \<noteq> None)"
  by (simp add: path_exists_def)

lemma unlink_At: "resolve E p = At l \<Longrightarrow> fs l \<noteq> None \<Longrightarrow> unlink E p fs = Some (fs(l := None))"
  by (auto simp: unlink_def)

lemma get_active_theme_absent:
  "resolve E ACTIVE_THEME_FILE = At ACTIVE_THEME_FILE \<Longrightarrow> fs ACTIVE_THEME_FILE = None \<Longrightarrow>
   get_active_theme E J fs = Inr None"
  by (simp add: get_active_theme_def path_exists_def)

lemma active_referenceD:
  assumes "active_reference E J fs = Some v"
  obtains d where "load_file E J fs ACTIVE_THEME_FILE = Some (JObj d)"
    "dict_get d ''name'' JNull = v"
  using assms
  by (auto simp: active_reference_def split: option.splits json.splits)

text \<open>
  The parts of claim C8 that hold. Deleting the theme the reference names clears the
  reference. Deleting another theme, under a name other than \<^verbatim>\<open>active_theme\<close> and at a
  place the reference does not lead to, leaves the reference and the answer of
  \<^verbatim>\<open>get_active_theme\<close> as they were.
\<close>

lemma delete_active_theme:
  assumes "plain_name x"
    and "length (theme_path x) \<le> NAME_MAX E" and "length ACTIVE_THEME_FILE \<le> NAME_MAX E"
    and "fs (theme_path x) \<noteq> None" and "active_reference E J fs = Some (JStr x)"
  shows "fst (delete_theme E J x fs) = Inr deleted_message
       \<and> snd (delete_theme E J x fs) ACTIVE_THEME_FILE = None
       \<and> get_active_theme E J (snd (delete_theme E J x fs)) = Inr None"
proof -
  have rt: "resolve E (theme_path x) = At (theme_path x)"
    by (rule resolve_theme_path[OF assms(1,2)])
  have ra: "resolve E ACTIVE_THEME_FILE = At ACTIVE_THEME_FILE"
    by (rule resolve_active[OF assms(3)])
  from assms(5) obtain d where a: "load_file E J fs ACTIVE_THEME_FILE = Some (JObj d)"
    "dict_get d ''name'' JNull = JStr x"
    by (rule active_referenceD)
  from a(1) ra have pa: "fs ACTIVE_THEME_FILE \<noteq> None"
    by (auto simp: load_file_def split: option.splits)
  let ?fs1 = "fs(theme_path x := None)"
  have e: "path_exists E fs (theme_path x) = Some True"
    using rt assms(4) by (simp add: path_exists_At)
  have u: "unlink E (theme_path x) fs = Some ?fs1"
    using rt assms(4) by (rule unlink_At)
  have r: "fst (delete_theme E J x fs) = Inr deleted_message
       \<and> snd (delete_theme E J x fs) ACTIVE_THEME_FILE = None"
  proof (cases "x = ''active_theme''")
    case True
    then have "theme_path x = ACTIVE_THEME_FILE" by (simp add: theme_path_active)
    then have "path_exists E ?fs1 ACTIVE_THEME_FILE = Some False"
      using ra by (simp add: path_exists_At)
    with e u \<open>theme_path x = ACTIVE_THEME_FILE\<close> show ?thesis
      by (simp add: delete_theme_def deleted_message_def)
  next
    case False
    then have ne: "theme_path x \<noteq> ACTIVE_THEME_FILE" by (simp add: theme_path_active)
    have e1: "path_exists E ?fs1 ACTIVE_THEME_FILE = Some True"
      using ra pa ne by (simp add: path_exists_At)
    have l1: "load_file E J ?fs1 ACTIVE_THEME_FILE = Some (JObj d)"
      using a(1) ra ne by (simp add: load_file_def)
    have u1: "unlink E ACTIVE_THEME_FILE ?fs1 = Some (?fs1(ACTIVE_THEME_FILE := None))"
      using ra pa ne by (intro unlink_At) simp_all
    from e u e1 l1 u1 a(2) show ?thesis
      by (simp add: delete_theme_def deleted_message_def)
  qed
  with get_active_theme_absent[OF ra, of "snd (delete_theme E J x fs)" J] show ?thesis by simp
qed

lemma delete_other_theme:
  assumes "plain_name y" and "y \<noteq> ''active_theme''"
    and "length (theme_path y) \<le> NAME_MAX E" and "length ACTIVE_THEME_FILE \<le> NAME_MAX E"
    and "fs (theme_path y) \<noteq> None"
    and "\<forall>v. active_reference E J fs = Some v \<longrightarrow>
           resolve E (theme_path (py_str v)) \<noteq> At (theme_path y)"
  shows "snd (delete_theme E J y fs) ACTIVE_THEME_FILE = fs ACTIVE_THEME_FILE
       \<and> get_active_theme E J (snd (delete_theme E J y fs)) = get_active_theme E J fs"
proof -
  have rt: "resolve E (theme_path y) = At (theme_path y)"
    by (rule resolve_theme_path[OF assms(1,3)])
  have ra: "resolve E ACTIVE_THEME_FILE = At ACTIVE_THEME_FILE"
    by (rule resolve_active[OF assms(4)])
  have ne: "theme_path y \<noteq> ACTIVE_THEME_FILE" using assms(2) by (simp add: theme_path_active)
  let ?fs1 = "fs(theme_path y := None)"
  have e: "path_exists E fs (theme_path y) = Some True"
    using rt assms(5) by (simp add: path_exists_At)
  have u: "unlink E (theme_path y) fs = Some ?fs1"
    using rt assms(5) by (rule unlink_At)
  have ea: "path_exists E ?fs1 ACTIVE_THEME_FILE = path_exists E fs ACTIVE_THEME_FILE"
    using ra ne by (simp add: path_exists_At)
  have la: "load_file E J ?fs1 ACTIVE_THEME_FILE = load_file E J fs ACTIVE_THEME_FILE"
    using ra ne by (simp add: load_file_def)
  have nm: "dict_get d ''name'' JNull \<noteq> JStr y"
    if "load_file E J fs ACTIVE_THEME_FILE = Some (JObj d)" for d
  proof
    assume eq: "dict_get d ''name'' JNull = JStr y"
    from that have "active_reference E J fs = Some (JStr y)" by (simp add: active_reference_def eq)
    with assms(6) rt show False by (simp add: py_str_def)
  qed
  have s: "snd (delete_theme E J y fs) = ?fs1"
  proof (cases "path_exists E fs ACTIVE_THEME_FILE")
    case None
    with e u ea show ?thesis by (simp add: delete_theme_def)
  next
    case (Some b)
    show ?thesis
    proof (cases b)
      case False
      with Some e u ea show ?thesis by (simp add: delete_theme_def)
    next
      case True
      show ?thesis
      proof (cases "load_file E J fs ACTIVE_THEME_FILE")
        case None
        with Some True e u ea la show ?thesis by (simp add: delete_theme_def)
      next
        case (Some v)
        note lv = this
        show ?thesis
        proof (cases v)
          case (JObj d)
          with lv have "load_file E J fs ACTIVE_THEME_FILE = Some (JObj d)" by simp
          from nm[OF this] this \<open>path_exists E fs ACTIVE_THEME_FILE = Some b\<close> True e u ea la
          show ?thesis by (simp add: delete_theme_def)
        qed (use lv \<open>path_exists E fs ACTIVE_THEME_FILE = Some b\<close> True e u ea la in
              \<open>simp_all add: delete_theme_def\<close>)
      qed
    qed
  qed
  have other: "path_exists E ?fs1 p = path_exists E fs p \<and> load_file E J ?fs1 p = load_file E J fs p"
    if "resolve E p \<noteq> At (theme_path y)" for p
    using that by (cases "resolve E p") (auto simp: path_exists_def load_file_def)
  have g: "get_active_theme E J ?fs1 = get_active_theme E J fs"
  proof (cases "path_exists E fs ACTIVE_THEME_FILE")
    case None
    with ea show ?thesis by (simp add: get_active_theme_def)
  next
    case (Some b)
    note pe = this
    show ?thesis
    proof (cases b)
      case False
      with pe ea show ?thesis by (simp add: get_active_theme_def)
    next
      case True
      show ?thesis
      proof (cases "load_file E J fs ACTIVE_THEME_FILE")
        case None
        with pe True ea la show ?thesis by (simp add: get_active_theme_def)
      next
        case (Some v)
        note lv = this
        show ?thesis
        proof (cases v)
          case (JObj d)
          with lv have "active_reference E J fs = Some (dict_get d ''name'' JNull)"
            by (simp add: active_reference_def)
          with assms(6) have "resolve E (theme_path (py_str (dict_get d ''name'' JNull)))
                                \<noteq> At (theme_path y)"
            by simp
          from other[OF this] lv JObj pe True ea la show ?thesis
            by (simp add: get_active_theme_def Let_def cong: option.case_cong bool.case_cong)
        qed (use lv pe True ea la in \<open>simp_all add: get_active_theme_def\<close>)
      qed
    qed
  qed
  from s g ne show ?thesis by simp
qed

section \<open>Properties of the model factory\<close>

text \<open>
  Claim C5. \<^verbatim>\<open>create_model\<close> on a dict whose \<^verbatim>\<open>"provider"\<close> is absent or is anything but
  \<^verbatim>\<open>"ollama"\<close> and \<^verbatim>\<open>"bedrock"\<close> raises the \<^verbatim>\<open>ValueError\<close> whose message ends with the value
  as \<^verbatim>\<open>str\<close> formats it, and calls into no SDK.
\<close>

theorem create_model_unsupported_provider:
  assumes "map_of d ''provider'' \<noteq> Some (JStr ''ollama'')"
    and "map_of d ''provider'' \<noteq> Some (JStr ''bedrock'')"
  shows "create_model R (PyDict d)
           = (Inl (ValueError (''Unsupported provider: '' @ py_str (dict_get d ''provider'' JNull))), [])"
  using assms by (auto simp: create_model_def dict_get_def Let_def split: option.splits)

theorem create_model_unsupported_provider_witness:
  "create_model example_runtime (PyDict [(''provider'', JStr ''openai''), (''model_id'', JStr ''gpt'')])
     = (Inl (ValueError ''Unsupported provider: openai''), [])
   \<and> create_model example_runtime (PyDict [(''model_id'', JStr ''gpt'')])
     = (Inl (ValueError ''Unsupported provider: None''), [])"
  using create_model_unsupported_provider
          [of "[(''provider'', JStr ''openai''), (''model_id'', JStr ''gpt'')]" example_runtime]
        create_model_unsupported_provider [of "[(''model_id'', JStr ''gpt'')]" example_runtime]
  by (simp add: dict_get_def py_str_def)

lemma construct_BedrockModel_calls:
  "snd (construct_BedrockModel R kw calls) = calls @ [Call_BedrockModel kw]"
  by (simp add: construct_BedrockModel_def split: option.splits)

lemma construct_BedrockModel_result:
  "fst (construct_BedrockModel R kw calls) = Inr m \<Longrightarrow> m = BedrockModel kw"
  by (simp add: construct_BedrockModel_def split: option.splits)

lemma construct_BedrockModel_ok:
  "BedrockModel_raises R kw = None \<Longrightarrow> fst (construct_BedrockModel R kw calls) = Inr (BedrockModel kw)"
  by (simp add: construct_BedrockModel_def)

text \<open>
  Claim C6, amended. When the Bedrock imports succeed, \<^verbatim>\<open>create_model\<close> on a Bedrock
  configuration passes \<^verbatim>\<open>streaming=True\<close> to every \<^verbatim>\<open>BedrockModel\<close> it constructs. With a
  profile that is not the empty string its first call makes the session of that profile,
  and a model is constructed only after the session and its client, with that client.
  With no profile or the empty string the one call constructs the model with no client.
  A model that is returned was constructed last, with streaming; and one is returned
  when none of the SDK calls raises.
\<close>

theorem create_model_bedrock:
  assumes "bedrock_importable R"
  shows "(\<forall>kw. Call_BedrockModel kw \<in> set (snd (create_model R (Bedrock c))) \<longrightarrow> streaming kw)
       \<and> (\<forall>p. profile c = Some p \<and> p \<noteq> [] \<longrightarrow>
             (\<exists>rest. snd (create_model R (Bedrock c)) = Call_Session p # rest)
           \<and> (\<forall>kw. Call_BedrockModel kw \<in> set (snd (create_model R (Bedrock c))) \<longrightarrow>
                 client kw = Some (SessionClient p ''bedrock-runtime'')
               \<and> snd (create_model R (Bedrock c))
                   = [Call_Session p, Call_client p ''bedrock-runtime'', Call_BedrockModel kw]))
       \<and> (profile c = None \<or> profile c = Some [] \<longrightarrow>
             (\<exists>kw. client kw = None \<and> snd (create_model R (Bedrock c)) = [Call_BedrockModel kw]))
       \<and> (\<forall>m. fst (create_model R (Bedrock c)) = Inr m \<longrightarrow>
             (\<exists>kw. m = BedrockModel kw \<and> streaming kw
                  \<and> last (snd (create_model R (Bedrock c))) = Call_BedrockModel kw))
       \<and> (bedrock_calls_succeed R c \<longrightarrow>
             (\<exists>kw. fst (create_model R (Bedrock c)) = Inr (BedrockModel kw)))"
proof -
  have cm: "create_model R (Bedrock c) = create_bedrock_model R c"
    by (simp add: create_model_def)
  consider (ambient) "profile c = None \<or> profile c = Some []"
    | (named) p where "profile c = Some p" "p \<noteq> []"
    by (cases "profile c") auto
  then show ?thesis
  proof cases
    case ambient
    then have r: "create_bedrock_model R c = construct_BedrockModel R (bedrock_kwargs c None) []"
      using assms by (auto simp: create_bedrock_model_def)
    have s: "snd (create_bedrock_model R c) = [Call_BedrockModel (bedrock_kwargs c None)]"
      unfolding r by (simp add: construct_BedrockModel_calls)
    have k: "streaming (bedrock_kwargs c None)" "client (bedrock_kwargs c None) = None"
      by (simp_all add: bedrock_kwargs_def)
    have f: "fst (create_bedrock_model R c) = Inr m \<Longrightarrow> m = BedrockModel (bedrock_kwargs c None)" for m
      unfolding r by (rule construct_BedrockModel_result)
    have ok: "bedrock_calls_succeed R c \<Longrightarrow>
        fst (create_bedrock_model R c) = Inr (BedrockModel (bedrock_kwargs c None))"
      unfolding r using ambient
      by (auto simp: bedrock_calls_succeed_def construct_BedrockModel_ok)
    have c1: "\<forall>kw. Call_BedrockModel kw \<in> set (snd (create_bedrock_model R c)) \<longrightarrow> streaming kw"
      using s k by simp
    have c23: "\<forall>p. profile c = Some p \<and> p \<noteq> [] \<longrightarrow>
             (\<exists>rest. snd (create_bedrock_model R c) = Call_Session p # rest)
           \<and> (\<forall>kw. Call_BedrockModel kw \<in> set (snd (create_bedrock_model R c)) \<longrightarrow>
                 client kw = Some (SessionClient p ''bedrock-runtime'')
               \<and> snd (create_bedrock_model R c)
                   = [Call_Session p, Call_client p ''bedrock-runtime'', Call_BedrockModel kw])"
      using ambient by auto
    have c4: "profile c = None \<or> profile c = Some [] \<longrightarrow>
             (\<exists>kw. client kw = None \<and> snd (create_bedrock_model R c) = [Call_BedrockModel kw])"
      using s k(2) by blast
    have c5: "\<forall>m. fst (create_bedrock_model R c) = Inr m \<longrightarrow>
             (\<exists>kw. m = BedrockModel kw \<and> streaming kw
                  \<and> last (snd (create_bedrock_model R c)) = Call_BedrockModel kw)"
      using f k(1) s by simp
    have c6: "bedrock_calls_succeed R c \<longrightarrow>
             (\<exists>kw. fst (create_bedrock_model R c) = Inr (BedrockModel kw))"
      using ok by blast
    show ?thesis unfolding cm by (intro conjI; (rule c1 c23 c4 c5 c6))
  next
    case named
    let ?kw = "bedrock_kwargs c (Some (SessionClient p ''bedrock-runtime''))"
    have k: "streaming ?kw" "client ?kw = Some (SessionClient p ''bedrock-runtime'')"
      by (simp_all add: bedrock_kwargs_def)
    have r: "create_bedrock_model R c =
       (case Session_raises R p of
          Some e \<Rightarrow> (Inl (SDKError e), [Call_Session p])
        | None \<Rightarrow>
            (case client_raises R p ''bedrock-runtime'' of
               Some e \<Rightarrow> (Inl (SDKError e), [Call_Session p, Call_client p ''bedrock-runtime''])
             | None \<Rightarrow> construct_BedrockModel R ?kw
                         [Call_Session p, Call_client p ''bedrock-runtime'']))"
      using assms named by (simp add: create_bedrock_model_def)
    have s: "snd (create_bedrock_model R c) = [Call_Session p]
           \<or> snd (create_bedrock_model R c) = [Call_Session p, Call_client p ''bedrock-runtime'']
           \<or> snd (create_bedrock_model R c)
               = [Call_Session p, Call_client p ''bedrock-runtime'', Call_BedrockModel ?kw]"
      unfolding r by (simp add: construct_BedrockModel_calls split: option.splits)
    have f: "fst (create_bedrock_model R c) = Inr m \<Longrightarrow>
          m = BedrockModel ?kw
        \<and> snd (create_bedrock_model R c)
               = [Call_Session p, Call_client p ''bedrock-runtime'', Call_BedrockModel ?kw]" for m
      unfolding r
      by (auto simp: construct_BedrockModel_calls dest: construct_BedrockModel_result
          split: option.splits)
    have ok: "bedrock_calls_succeed R c \<Longrightarrow> fst (create_bedrock_model R c) = Inr (BedrockModel ?kw)"
      unfolding r using named
      by (auto simp: bedrock_calls_succeed_def construct_BedrockModel_ok)
    have c1: "\<forall>kw. Call_BedrockModel kw \<in> set (snd (create_bedrock_model R c)) \<longrightarrow> streaming kw"
      using s k(1) by (elim disjE) simp_all
    have c2: "\<exists>rest. snd (create_bedrock_model R c) = Call_Session p # rest"
      using s by (elim disjE) simp_all
    have c3: "\<forall>kw. Call_BedrockModel kw \<in> set (snd (create_bedrock_model R c)) \<longrightarrow>
                 client kw = Some (SessionClient p ''bedrock-runtime'')
               \<and> snd (create_bedrock_model R c)
                   = [Call_Session p, Call_client p ''bedrock-runtime'', Call_BedrockModel kw]"
      using s k(2) by (elim disjE) simp_all
    have c23: "\<forall>q. profile c = Some q \<and> q \<noteq> [] \<longrightarrow>
             (\<exists>rest. snd (create_bedrock_model R c) = Call_Session q # rest)
           \<and> (\<forall>kw. Call_BedrockModel kw \<in> set (snd (create_bedrock_model R c)) \<longrightarrow>
                 client kw = Some (SessionClient q ''bedrock-runtime'')
               \<and> snd (create_bedrock_model R c)
                   = [Call_Session q, Call_client q ''bedrock-runtime'', Call_BedrockModel kw])"
    proof (intro allI impI)
      fix q assume "profile c = Some q \<and> q \<noteq> []"
      with named(1) have "q = p" by simp
      with c2 c3 show "(\<exists>rest. snd (create_bedrock_model R c) = Call_Session q # rest)
           \<and> (\<forall>kw. Call_BedrockModel kw \<in> set (snd (create_bedrock_model R c)) \<longrightarrow>
                 client kw = Some (SessionClient q ''bedrock-runtime'')
               \<and> snd (create_bedrock_model R c)
                   = [Call_Session q, Call_client q ''bedrock-runtime'', Call_BedrockModel kw])"
        by simp
    qed
    have c4: "profile c = None \<or> profile c = Some [] \<longrightarrow>
             (\<exists>kw. client kw = None \<and> snd (create_bedrock_model R c) = [Call_BedrockModel kw])"
      using named by simp
    have c5: "\<forall>m. fst (create_bedrock_model R c) = Inr m \<longrightarrow>
             (\<exists>kw. m = BedrockModel kw \<and> streaming kw
                  \<and> last (snd (create_bedrock_model R c)) = Call_BedrockModel kw)"
    proof (intro allI impI)
      fix m assume "fst (create_bedrock_model R c) = Inr m"
      from f[OF this] k(1)
      show "\<exists>kw. m = BedrockModel kw \<and> streaming kw
                  \<and> last (snd (create_bedrock_model R c)) = Call_BedrockModel kw"
        by (intro exI[of _ ?kw]) simp
    qed
    have c6: "bedrock_calls_succeed R c \<longrightarrow>
             (\<exists>kw. fst (create_bedrock_model R c) = Inr (BedrockModel kw))"
      using ok by blast
    show ?thesis unfolding cm by (intro conjI; (rule c1 c23 c4 c5 c6))
  qed
qed

theorem create_model_bedrock_witness:
  "bedrock_importable example_runtime
   \<and> bedrock_calls_succeed example_runtime (example_bedrock (Some ''dev''))
   \<and> bedrock_calls_succeed example_runtime (example_bedrock None)
   \<and> (\<exists>kw. fst (create_model example_runtime (Bedrock (example_bedrock (Some ''dev''))))
              = Inr (BedrockModel kw)
          \<and> streaming kw
          \<and> client kw = Some (SessionClient ''dev'' ''bedrock-runtime'')
          \<and> snd (create_model example_runtime (Bedrock (example_bedrock (Some ''dev''))))
              = [Call_Session ''dev'', Call_client ''dev'' ''bedrock-runtime'', Call_BedrockModel kw])
   \<and> (\<exists>kw. fst (create_model example_runtime (Bedrock (example_bedrock None)))
              = Inr (BedrockModel kw)
          \<and> streaming kw
          \<and> client kw = None
          \<and> snd (create_model example_runtime (Bedrock (example_bedrock None)))
              = [Call_BedrockModel kw])"
proof -
  have h: "bedrock_importable example_runtime" by (simp add: example_runtime_def)
  have p1: "profile (example_bedrock (Some ''dev'')) = Some ''dev''"
    and p2: "profile (example_bedrock None) = None"
    by (simp_all add: example_bedrock_def)
  have s1: "bedrock_calls_succeed example_runtime (example_bedrock (Some ''dev''))"
    and s2: "bedrock_calls_succeed example_runtime (example_bedrock None)"
    by (simp_all add: bedrock_calls_succeed_def example_bedrock_def example_runtime_def)
  let ?r1 = "create_model example_runtime (Bedrock (example_bedrock (Some ''dev'')))"
  let ?r2 = "create_model example_runtime (Bedrock (example_bedrock None))"
  note t1 = create_model_bedrock[OF h, of "example_bedrock (Some ''dev'')"]
  note t2 = create_model_bedrock[OF h, of "example_bedrock None"]
  from t1 s1 obtain kw where f1: "fst ?r1 = Inr (BedrockModel kw)" by blast
  from t1 f1 obtain kw' where "BedrockModel kw = BedrockModel kw'" "streaming kw'"
    "last (snd ?r1) = Call_BedrockModel kw'" by blast
  then have l1: "streaming kw" "last (snd ?r1) = Call_BedrockModel kw" by simp_all
  from t1 p1 obtain rest where "snd ?r1 = Call_Session ''dev'' # rest" by blast
  with l1(2) have "Call_BedrockModel kw \<in> set (snd ?r1)"
    by (metis last_in_set list.distinct(1))
  with t1 p1 have c1: "client kw = Some (SessionClient ''dev'' ''bedrock-runtime'')"
    "snd ?r1 = [Call_Session ''dev'', Call_client ''dev'' ''bedrock-runtime'', Call_BedrockModel kw]"
    by blast+
  from t2 s2 obtain kw2 where f2: "fst ?r2 = Inr (BedrockModel kw2)" by blast
  from t2 f2 obtain kw2' where "BedrockModel kw2 = BedrockModel kw2'" "streaming kw2'"
    "last (snd ?r2) = Call_BedrockModel kw2'" by blast
  then have l2: "streaming kw2" "last (snd ?r2) = Call_BedrockModel kw2" by simp_all
  from t2 p2 obtain kw3 where k3: "client kw3 = None" "snd ?r2 = [Call_BedrockModel kw3]" by blast
  with l2(2) have "kw3 = kw2" by simp
  with k3 have c2: "client kw2 = None" "snd ?r2 = [Call_BedrockModel kw2]" by simp_all
  from h s1 s2 f1 l1(1) c1 f2 l2(1) c2 show ?thesis by blast
qed

text \<open>
  Claim C6 as stated, for every supplied profile, fails at the empty string: the profile
  is not \<^verbatim>\<open>None\<close>, and no session is made.
\<close>

theorem empty_profile_counterexample:
  "profile (example_bedrock (Some '''')) \<noteq> None
   \<and> create_model example_runtime (Bedrock (example_bedrock (Some '''')))
       = (Inr (BedrockModel \<lparr>model_id = ''anthropic.claude-sonnet-4-20250514-v1:0'', temperature = 3,
             streaming = True, region_name = Some ''us-west-2'', client = None\<rparr>),
          [Call_BedrockModel \<lparr>model_id = ''anthropic.claude-sonnet-4-20250514-v1:0'', temperature = 3,
             streaming = True, region_name = Some ''us-west-2'', client = None\<rparr>])"
  by (simp add: example_bedrock_def example_runtime_def create_model_def create_bedrock_model_def
      construct_BedrockModel_def bedrock_kwargs_def)

text \<open>
  A profile that is not configured: the session raises, and neither a client nor a model
  is made. Without the imports nothing is called; a dict goes through the class's
  constructor.
\<close>

lemma undefined_profile_raises:
  "create_model example_runtime (Bedrock (example_bedrock (Some ''prod'')))
     = (Inl (SDKError ''ProfileNotFound''), [Call_Session ''prod''])"
  by (simp add: example_bedrock_def example_runtime_def create_model_def create_bedrock_model_def)

lemma create_model_bedrock_not_importable:
  "\<not> bedrock_importable R \<Longrightarrow> \<exists>m. create_model R (Bedrock c) = (Inl (ImportError m), [])"
  by (simp add: create_model_def create_bedrock_model_def)

lemma create_model_dict_bedrock:
  "map_of d ''provider'' = Some (JStr ''bedrock'') \<Longrightarrow> new_BedrockConfig R d = Some c \<Longrightarrow>
   create_model R (PyDict d) = create_model R (Bedrock c)"
  by (simp add: create_model_def dict_get_def)

end
